theory Spec2Isabelle
  imports Complex_Main
begin

section \<open>Values and exceptions\<close>

text \<open>
  The values that travel between the model, the dispatcher, the bridge and the worker
  are Python values. The JSON-shaped ones: a Python \<^verbatim>\<open>dict\<close> keeps insertion order, so an
  object is an association list; \<^verbatim>\<open>None\<close> is \<open>JNull\<close>; a finite Python float is a rational.
  \<open>JOther\<close> is any other Python object, by its \<^verbatim>\<open>repr\<close>: the dump of a resource, for one,
  holds the URL object of the resource, which \<^verbatim>\<open>json.dumps\<close> cannot serialize.
\<close>

datatype json =
    JNull
  | JBool bool
  | JInt int
  | JFloat rat
  | JStr string
  | JArr "json list"
  | JObj "(string \<times> json) list"
  | JOther string

text \<open>
  A raised Python exception (an instance of \<^verbatim>\<open>Exception\<close>): the class an \<^verbatim>\<open>except\<close>
  clause matches it by, and the message \<^verbatim>\<open>str(exc)\<close> gives. Signals that are not instances
  of \<^verbatim>\<open>Exception\<close>, such as \<^verbatim>\<open>KeyboardInterrupt\<close>, are not failures of a call and have no
  place here.
\<close>

datatype exn = Exn (exn_class: string) (exn_str: string)

section \<open>mcp\_client.py: the RPC bridge\<close>

text \<open>
  A content block of a worker reply, read the way \<^verbatim>\<open>_normalize_result\<close> reads it: through
  \<^verbatim>\<open>getattr(block, "type", None)\<close>, \<^verbatim>\<open>block.text\<close>, \<^verbatim>\<open>getattr(block, "resource", None)\<close>
  and \<^verbatim>\<open>block.model_dump()\<close>; a resource through \<^verbatim>\<open>getattr(resource, "text", None)\<close> and
  \<^verbatim>\<open>resource.model_dump()\<close>. What \<^verbatim>\<open>model_dump()\<close> returns is a field of the object. The
  attribute \<^verbatim>\<open>content\<close> of a reply is the field \<open>content_blocks\<close>, the name \<open>content\<close>
  being kept for the key of a transcript message.
\<close>

record resource =
  resource_text :: "string option"
  resource_dump :: json

record block =
  block_type :: "string option"
  block_text :: string
  block_resource :: "resource option"
  block_dump :: json

record call_tool_result =
  isError :: bool
  structuredContent :: "json option"
  content_blocks :: "block list"
  result_dump :: string

text \<open>
  The body of the \<^verbatim>\<open>for block in result.content\<close> loop: the value appended to
  \<^verbatim>\<open>blocks\<close> for one block.
\<close>

definition reduce_block :: "block \<Rightarrow> json" where
  "reduce_block b =
     (if block_type b = Some ''text'' then JStr (block_text b)
      else if block_type b = Some ''resource'' then
        (case block_resource b of
           None \<Rightarrow> block_dump b
         | Some r \<Rightarrow>
             (case resource_text r of
                Some t \<Rightarrow> JStr t
              | None \<Rightarrow> resource_dump r))
      else block_dump b)"

text \<open>
  \<^verbatim>\<open>_normalize_result\<close>. \<open>result_dump r\<close> is the text of \<^verbatim>\<open>result.model_dump()\<close> that
  the f-string of the \<^verbatim>\<open>RuntimeError\<close> embeds.
\<close>

definition normalize_result :: "call_tool_result \<Rightarrow> exn + json" where
  "normalize_result r =
     (if isError r then Inl (Exn ''RuntimeError'' (''Tool call failed: '' @ result_dump r))
      else
        (case structuredContent r of
           Some payload \<Rightarrow> Inr payload
         | None \<Rightarrow>
             (let blocks = map reduce_block (content_blocks r) in
              if blocks = [] then Inr JNull
              else if length blocks = 1 then Inr (blocks ! 0)
              else Inr (JArr blocks))))"

text \<open>
  \<^verbatim>\<open>_call_tool\<close> opens one worker session, sends one call and normalizes the reply.
  The worker and the transport are the parameter \<open>worker\<close>: what
  \<^verbatim>\<open>session.call_tool(name, arguments)\<close> returns, or the exception the session raises.
  An exception that leaves the \<^verbatim>\<open>async with\<close> blocks of the session, the
  \<^verbatim>\<open>RuntimeError\<close> of \<^verbatim>\<open>_normalize_result\<close> included, is raised again by their task group as
  an \<^verbatim>\<open>ExceptionGroup\<close>, and this is what \<^verbatim>\<open>anyio.run\<close> raises. The second component of the
  result lists the sessions that were opened, each with the call it carried.
\<close>

type_synonym worker = "string \<Rightarrow> json \<Rightarrow> exn + call_tool_result"

type_synonym bridged = "(exn + json) \<times> (string \<times> json) list"

definition in_task_group :: "exn + json \<Rightarrow> exn + json" where
  "in_task_group outcome =
     (case outcome of
        Inl e \<Rightarrow>
          Inl (Exn ''ExceptionGroup'' ''unhandled errors in a TaskGroup (1 sub-exception)'')
      | Inr value \<Rightarrow> Inr value)"

definition call_tool :: "worker \<Rightarrow> string \<Rightarrow> json \<Rightarrow> bridged" where
  "call_tool worker name arguments =
     (in_task_group
        (case worker name arguments of
           Inl e \<Rightarrow> Inl e
         | Inr r \<Rightarrow> normalize_result r),
      [(name, arguments)])"

text \<open>\<^verbatim>\<open>mcp_client.run_command(command, timeout=30)\<close>.\<close>

definition client_run_command :: "worker \<Rightarrow> string \<Rightarrow> int \<Rightarrow> bridged" where
  "client_run_command worker command timeout =
     (if timeout \<le> 0 then (Inl (Exn ''ValueError'' ''timeout must be positive''), [])
      else call_tool worker ''run_command''
             (JObj [(''command'', JStr command), (''timeout'', JInt timeout)]))"

section \<open>Python built-ins used by the worker and the agent\<close>

text \<open>
  \<^verbatim>\<open>str.strip()\<close> removes leading and trailing whitespace; on one-byte characters the
  whitespace of Python's \<^verbatim>\<open>str\<close> is the set below.
\<close>

definition isspace :: "char \<Rightarrow> bool" where
  "isspace c = (of_char c \<in> {9, 10, 11, 12, 13, 28, 29, 30, 31, 32, 133, 160 :: nat})"

definition strip :: "string \<Rightarrow> string" where
  "strip s = rev (dropWhile isspace (rev (dropWhile isspace s)))"

text \<open>\<^verbatim>\<open>str(n)\<close> of an integer: its decimal digits, with a minus sign when negative.\<close>

fun str_nat :: "nat \<Rightarrow> string" where
  "str_nat n =
     (if n < 10 then [char_of (48 + n)]
      else str_nat (n div 10) @ [char_of (48 + n mod 10)])"

definition str_int :: "int \<Rightarrow> string" where
  "str_int i = (if i < 0 then CHR ''-'' # str_nat (nat (- i)) else str_nat (nat i))"

text \<open>\<^verbatim>\<open>" ".join(parts)\<close>.\<close>

fun join_space :: "string list \<Rightarrow> string" where
  "join_space [] = []"
| "join_space [x] = x"
| "join_space (x # y # ys) = x @ '' '' @ join_space (y # ys)"

text \<open>Reading a key of a mapping; a value that is not a mapping has no keys.\<close>

definition obj_get :: "json \<Rightarrow> string \<Rightarrow> json option" where
  "obj_get v k = (case v of JObj kvs \<Rightarrow> map_of kvs k | _ \<Rightarrow> None)"

section \<open>mcp\_server.py: the capability worker\<close>

text \<open>
  Each tool is a thin call into the operating system. What the operating system does is a
  parameter of the tool: the outcome of the call, an exception or a value.
\<close>

record completed_process =
  returncode :: int
  stdout :: string
  stderr :: string

definition proc_result :: "completed_process \<Rightarrow> (string \<times> json) list" where
  "proc_result result =
     (let status = (if returncode result = 0 then ''ok'' else ''error'') in
      [(''status'', JStr status),
       (''returncode'', JInt (returncode result)),
       (''stdout'', JStr (strip (stdout result))),
       (''stderr'', JStr (strip (stderr result)))])"

text \<open>
  \<^verbatim>\<open>read_file\<close>: \<open>open_read path\<close> is the outcome of opening the file and reading it whole.
\<close>

definition read_file :: "(string \<Rightarrow> exn + string) \<Rightarrow> string \<Rightarrow> json" where
  "read_file open_read path =
     (case open_read path of
        Inr text \<Rightarrow> JObj [(''content'', JStr text)]
      | Inl e \<Rightarrow>
          if exn_class e = ''FileNotFoundError''
          then JObj [(''error'', JStr ''file not found''), (''content'', JStr [])]
          else JObj [(''error'', JStr (exn_str e)), (''content'', JStr [])])"

text \<open>
  \<^verbatim>\<open>append_log\<close>: \<open>open_append path line\<close> is the outcome of opening the file for appending
  and writing the line, \<open>None\<close> when nothing was raised.
\<close>

definition append_log :: "(string \<Rightarrow> string \<Rightarrow> exn option) \<Rightarrow> string \<Rightarrow> string \<Rightarrow> json" where
  "append_log open_append path text =
     (case open_append path (text @ [CHR 0x0A]) of
        None \<Rightarrow> JObj [(''status'', JStr ''ok'')]
      | Some e \<Rightarrow> JObj [(''status'', JStr ''error''), (''error'', JStr (exn_str e))])"

text \<open>
  \<^verbatim>\<open>run_command\<close>: \<open>run_shell command timeout\<close> is the outcome of
  \<^verbatim>\<open>subprocess.run(command, shell=True, capture_output=True, text=True, timeout=timeout)\<close>.
\<close>

definition run_command ::
  "(string \<Rightarrow> int \<Rightarrow> exn + completed_process) \<Rightarrow> string \<Rightarrow> int \<Rightarrow> json" where
  "run_command run_shell command timeout =
     (if strip command = [] then
        JObj [(''status'', JStr ''error''), (''error'', JStr ''command cannot be empty'')]
      else
        (case run_shell command timeout of
           Inr result \<Rightarrow> JObj (proc_result result @ [(''command'', JStr command)])
         | Inl e \<Rightarrow>
             if exn_class e = ''TimeoutExpired'' then
               JObj [(''status'', JStr ''error''),
                     (''error'', JStr (''command timed out after '' @ str_int timeout @ ''s''))]
             else JObj [(''status'', JStr ''error''), (''error'', JStr (exn_str e))]))"

text \<open>
  \<^verbatim>\<open>system_info\<close>. The facts of the host: the strings \<^verbatim>\<open>platform\<close> reports,
  \<^verbatim>\<open>os.cpu_count()\<close>, whether \<^verbatim>\<open>os\<close> has \<^verbatim>\<open>getloadavg\<close>, what \<^verbatim>\<open>os.getloadavg()\<close> returns
  (\<open>None\<close> when it raises \<^verbatim>\<open>OSError\<close>, the only error it raises), and the value the
  \<^verbatim>\<open>try\<close> block on \<^verbatim>\<open>/proc/uptime\<close> computes (\<open>None\<close> when any step of it raises).
\<close>

record host =
  platform_platform :: string
  platform_system :: string
  platform_release :: string
  platform_python_version :: string
  platform_machine :: string
  os_cpu_count :: "int option"
  os_has_getloadavg :: bool
  os_getloadavg :: "(rat \<times> rat \<times> rat) option"
  proc_uptime :: "rat option"

definition system_info :: "host \<Rightarrow> json" where
  "system_info h =
     (let load_avg =
            (if os_has_getloadavg h then
               (case os_getloadavg h of
                  Some (a, b, c) \<Rightarrow> JArr [JFloat a, JFloat b, JFloat c]
                | None \<Rightarrow> JNull)
             else JNull);
          uptime_seconds = (case proc_uptime h of Some u \<Rightarrow> JFloat u | None \<Rightarrow> JNull)
      in JObj [(''platform'', JStr (platform_platform h)),
               (''system'', JStr (platform_system h)),
               (''release'', JStr (platform_release h)),
               (''python'', JStr (platform_python_version h)),
               (''architecture'', JStr (platform_machine h)),
               (''cpu_count'', (case os_cpu_count h of Some n \<Rightarrow> JInt n | None \<Rightarrow> JNull)),
               (''load_avg'', load_avg),
               (''uptime_seconds'', uptime_seconds)])"

text \<open>
  \<^verbatim>\<open>ping_host\<close> and \<^verbatim>\<open>ssh_command\<close>: \<open>which\<close> is \<^verbatim>\<open>shutil.which\<close> of the binary,
  \<open>run_argv command timeout\<close> the outcome of
  \<^verbatim>\<open>subprocess.run(command, capture_output=True, text=True, timeout=timeout)\<close>, and \<open>quote\<close>
  is \<^verbatim>\<open>shlex.quote\<close>.
\<close>

definition ping_host ::
  "string option \<Rightarrow> (string list \<Rightarrow> int \<Rightarrow> exn + completed_process) \<Rightarrow> (string \<Rightarrow> string)
     \<Rightarrow> string \<Rightarrow> int \<Rightarrow> int \<Rightarrow> json" where
  "ping_host which run_argv quote host count0 timeout0 =
     (if strip host = [] then
        JObj [(''status'', JStr ''error''), (''error'', JStr ''host is required'')]
      else
        (case which of
           None \<Rightarrow>
             JObj [(''status'', JStr ''error''), (''error'', JStr ''ping binary not available'')]
         | Some ping_bin \<Rightarrow>
             (let count = max 1 (min count0 10);
                  timeout = max 1 timeout0;
                  command = [ping_bin, ''-c'', str_int count, ''-W'', str_int timeout, host]
              in case run_argv command (count * (timeout + 1)) of
                   Inr result \<Rightarrow>
                     JObj (proc_result result
                           @ [(''command'', JStr (join_space (map quote command)))])
                 | Inl e \<Rightarrow>
                     if exn_class e = ''TimeoutExpired'' then
                       JObj [(''status'', JStr ''error''),
                             (''error'', JStr ''ping operation timed out'')]
                     else JObj [(''status'', JStr ''error''), (''error'', JStr (exn_str e))])))"

text \<open>
  \<^verbatim>\<open>scan_port\<close>: \<open>connect host port timeout\<close> is the outcome of \<^verbatim>\<open>sock.connect((host, port))\<close>
  on a socket whose timeout is \<open>timeout\<close>: the rounded elapsed time, or the exception
  raised. The second component of the result lists the connection attempts made.
\<close>

definition scan_port ::
  "(string \<Rightarrow> int \<Rightarrow> rat \<Rightarrow> exn + rat) \<Rightarrow> string \<Rightarrow> int \<Rightarrow> rat
     \<Rightarrow> json \<times> (string \<times> int) list" where
  "scan_port connect host port timeout =
     (if strip host = [] then
        (JObj [(''status'', JStr ''error''), (''error'', JStr ''host is required'')], [])
      else if \<not> (0 < port \<and> port < 65536) then
        (JObj [(''status'', JStr ''error''),
               (''error'', JStr ''port must be between 1 and 65535'')], [])
      else
        ((case connect host port (max (1 / 10) timeout) of
            Inr elapsed \<Rightarrow>
              JObj [(''status'', JStr ''ok''), (''host'', JStr host), (''port'', JInt port),
                    (''open'', JBool True), (''latency'', JFloat elapsed)]
          | Inl e \<Rightarrow>
              if exn_class e = ''socket.timeout'' \<or> exn_class e = ''ConnectionRefusedError'' then
                JObj [(''status'', JStr ''ok''), (''host'', JStr host), (''port'', JInt port),
                      (''open'', JBool False)]
              else JObj [(''status'', JStr ''error''), (''error'', JStr (exn_str e))]),
         [(host, port)]))"

text \<open>
  \<^verbatim>\<open>ssh_command\<close>: \<open>user\<close> and \<open>key_path\<close> are \<^verbatim>\<open>str | None\<close>; an empty string is as falsy
  as \<^verbatim>\<open>None\<close>.
\<close>

definition ssh_command ::
  "string option \<Rightarrow> (string list \<Rightarrow> int \<Rightarrow> exn + completed_process) \<Rightarrow> (string \<Rightarrow> string)
     \<Rightarrow> string \<Rightarrow> string \<Rightarrow> string option \<Rightarrow> int \<Rightarrow> string option \<Rightarrow> int \<Rightarrow> json" where
  "ssh_command which run_argv quote host command user port key_path timeout =
     (if strip host = [] then
        JObj [(''status'', JStr ''error''), (''error'', JStr ''host is required'')]
      else if strip command = [] then
        JObj [(''status'', JStr ''error''), (''error'', JStr ''command is required'')]
      else
        (case which of
           None \<Rightarrow>
             JObj [(''status'', JStr ''error''), (''error'', JStr ''ssh binary not available'')]
         | Some ssh_bin \<Rightarrow>
             (let target = (case user of
                              Some u \<Rightarrow> if u \<noteq> [] then u @ ''@'' @ host else host
                            | None \<Rightarrow> host);
                  ssh_cmd = [ssh_bin, ''-p'', str_int port, ''-o'', ''BatchMode=yes'']
                            @ (case key_path of
                                 Some k \<Rightarrow> if k \<noteq> [] then [''-i'', k] else []
                               | None \<Rightarrow> [])
                            @ [target, command]
              in case run_argv ssh_cmd timeout of
                   Inr result \<Rightarrow>
                     JObj (proc_result result
                           @ [(''command'', JStr (join_space (map quote ssh_cmd)))])
                 | Inl e \<Rightarrow>
                     if exn_class e = ''TimeoutExpired'' then
                       JObj [(''status'', JStr ''error''),
                             (''error'',
                              JStr (''ssh command timed out after '' @ str_int timeout @ ''s''))]
                     else JObj [(''status'', JStr ''error''), (''error'', JStr (exn_str e))])))"

section \<open>cli\_agent.py: the reply interpreter\<close>

text \<open>\<^verbatim>\<open>text[i:j]\<close> for \<open>0 \<le> i \<le> j\<close>, and \<^verbatim>\<open>text.find(c, start)\<close>, \<open>None\<close> standing for \<open>-1\<close>.\<close>

definition slice :: "string \<Rightarrow> nat \<Rightarrow> nat \<Rightarrow> string" where
  "slice text i j = take (j - i) (drop i text)"

fun find_char :: "char \<Rightarrow> string \<Rightarrow> nat \<Rightarrow> nat option" where
  "find_char c [] idx = None"
| "find_char c (x # xs) idx = (if x = c then Some idx else find_char c xs (idx + 1))"

definition find_from :: "string \<Rightarrow> char \<Rightarrow> nat \<Rightarrow> nat option" where
  "find_from text c start = find_char c (drop start text) start"

text \<open>
  The \<^verbatim>\<open>for idx in range(start, len(text))\<close> loop of \<^verbatim>\<open>_extract_json_object\<close>, run on
  the characters from \<open>idx\<close> on with the loop's variables \<open>depth\<close>, \<open>in_string\<close> and
  \<open>escape\<close>. It returns the index at which the depth comes back to zero, where the source
  parses the candidate and then returns or breaks; \<open>None\<close> when the loop runs off the end
  of the text.
\<close>

fun scan :: "string \<Rightarrow> nat \<Rightarrow> int \<Rightarrow> bool \<Rightarrow> bool \<Rightarrow> nat option" where
  "scan [] idx depth in_string escape = None"
| "scan (char # rest) idx depth in_string escape =
     (if in_string then
        (if escape then scan rest (idx + 1) depth in_string False
         else if char = CHR 0x5C then scan rest (idx + 1) depth in_string True
         else if char = CHR 0x22 then scan rest (idx + 1) depth False escape
         else scan rest (idx + 1) depth in_string escape)
      else if char = CHR 0x22 then scan rest (idx + 1) depth True escape
      else if char = CHR ''{'' then scan rest (idx + 1) (depth + 1) in_string escape
      else if char = CHR ''}'' then
        (if depth - 1 = 0 then Some idx
         else scan rest (idx + 1) (depth - 1) in_string escape)
      else scan rest (idx + 1) depth in_string escape)"

lemma find_char_bounds:
  "find_char c xs k = Some i \<Longrightarrow> k \<le> i \<and> i < k + length xs"
  by (induction xs arbitrary: k) (fastforce split: if_splits)+

lemma find_bounds: "find_from text c k = Some i \<Longrightarrow> k \<le> i \<and> i < length text"
  using find_char_bounds [of c "drop k text" k i] by (auto simp: find_from_def)

text \<open>
  The \<^verbatim>\<open>while start != -1\<close> loop. \<open>loads\<close> is \<^verbatim>\<open>json.loads\<close>: the parsed value, or \<open>None\<close>
  when it raises \<^verbatim>\<open>JSONDecodeError\<close>.
\<close>

function extract_from :: "(string \<Rightarrow> json option) \<Rightarrow> string \<Rightarrow> nat option \<Rightarrow> json option" where
  "extract_from loads text None = None"
| "extract_from loads text (Some start) =
     (case scan (drop start text) start 0 False False of
        Some idx \<Rightarrow>
          (case loads (slice text start (idx + 1)) of
             Some obj \<Rightarrow> Some obj
           | None \<Rightarrow> extract_from loads text (find_from text CHR ''{'' (start + 1)))
      | None \<Rightarrow> extract_from loads text (find_from text CHR ''{'' (start + 1)))"
  by pat_completeness auto
termination
  by (relation "measure (\<lambda>(loads, text, start).
                  case start of None \<Rightarrow> 0 | Some k \<Rightarrow> Suc (length text - k))")
     (auto dest!: find_bounds split: option.splits)

definition extract_json_object :: "(string \<Rightarrow> json option) \<Rightarrow> string \<Rightarrow> json option" where
  "extract_json_object loads text = extract_from loads text (find_from text CHR ''{'' 0)"

text \<open>
  The lexical shape of an object in JSON text. Between its braces stand characters other
  than a quote or a brace (whitespace, digits, the letters of literals, brackets, commas
  and colons), strings, and nested objects; a string runs from a quote to the next quote
  that no backslash escapes. Every object of the JSON grammar has this shape.
\<close>

inductive string_body :: "string \<Rightarrow> bool" where
  sb_end: "string_body []"
| sb_char: "c \<noteq> CHR 0x22 \<Longrightarrow> c \<noteq> CHR 0x5C \<Longrightarrow> string_body s \<Longrightarrow> string_body (c # s)"
| sb_escape: "string_body s \<Longrightarrow> string_body (CHR 0x5C # c # s)"

inductive members :: "string \<Rightarrow> bool" where
  mb_end: "members []"
| mb_char: "c \<noteq> CHR 0x22 \<Longrightarrow> c \<noteq> CHR ''{'' \<Longrightarrow> c \<noteq> CHR ''}'' \<Longrightarrow> members s
            \<Longrightarrow> members (c # s)"
| mb_string: "string_body b \<Longrightarrow> members s \<Longrightarrow> members (CHR 0x22 # b @ CHR 0x22 # s)"
| mb_object: "members a \<Longrightarrow> members s \<Longrightarrow> members (CHR ''{'' # a @ CHR ''}'' # s)"

definition object_text :: "string \<Rightarrow> bool" where
  "object_text s = (\<exists>a. members a \<and> s = CHR ''{'' # a @ [CHR ''}''])"

text \<open>
  A start position fails when the scan from it runs off the end of the text, or when the
  balanced span it finds does not parse.
\<close>

definition start_fails :: "(string \<Rightarrow> json option) \<Rightarrow> string \<Rightarrow> nat \<Rightarrow> bool" where
  "start_fails loads text i =
     (case scan (drop i text) i 0 False False of
        None \<Rightarrow> True
      | Some idx \<Rightarrow> loads (slice text i (idx + 1)) = None)"

text \<open>
  A sample reply: prose with an unbalanced brace inside a quoted string, then the object
  \<^verbatim>\<open>{"a":1}\<close>, then more prose; and a parser that accepts that object only.
\<close>

definition sample_object :: string where
  "sample_object = ''{'' @ [CHR 0x22] @ ''a'' @ [CHR 0x22] @ '':1}''"

definition sample_prose :: string where
  "sample_prose = ''say '' @ [CHR 0x22] @ ''{'' @ [CHR 0x22] @ '' then ''"

definition sample_loads :: "string \<Rightarrow> json option" where
  "sample_loads s = (if s = sample_object then Some (JObj [(''a'', JInt 1)]) else None)"

section \<open>The shape of a tool result\<close>

text \<open>
  The shape the data model gives a ToolResult: a mapping whose \<^verbatim>\<open>status\<close> is \<^verbatim>\<open>ok\<close> or
  \<^verbatim>\<open>error\<close>, with an \<^verbatim>\<open>error\<close> message when the status is \<^verbatim>\<open>error\<close>.
\<close>

definition is_message :: "json option \<Rightarrow> bool" where
  "is_message v = (case v of Some (JStr m) \<Rightarrow> True | _ \<Rightarrow> False)"

definition tool_result_shape :: "json \<Rightarrow> bool" where
  "tool_result_shape v =
     (if obj_get v ''status'' = Some (JStr ''ok'') then True
      else if obj_get v ''status'' = Some (JStr ''error'') then is_message (obj_get v ''error'')
      else False)"

text \<open>
  The shape of a process result whose return code is not zero: the status is \<^verbatim>\<open>error\<close>,
  and the return code and the captured output stand in for the message.
\<close>

definition failed_process_shape :: "json \<Rightarrow> bool" where
  "failed_process_shape v =
     (obj_get v ''status'' = Some (JStr ''error'')
      \<and> obj_get v ''error'' = None
      \<and> (case obj_get v ''returncode'' of Some (JInt rc) \<Rightarrow> rc \<noteq> 0 | _ \<Rightarrow> False)
      \<and> is_message (obj_get v ''stdout'')
      \<and> is_message (obj_get v ''stderr''))"

text \<open>The result the dispatcher makes of an exception raised by a tool invocation.\<close>

definition failure_result :: "exn \<Rightarrow> json" where
  "failure_result exc = JObj [(''status'', JStr ''error''), (''error'', JStr (exn_str exc))]"

section \<open>cli\_agent.py: the orchestration loop\<close>

text \<open>
  A message of the transcript is the dictionary \<^verbatim>\<open>{"role": ..., "content": ...}\<close>. The
  content is a value, not a string: \<^verbatim>\<open>process_assistant\<close> appends \<^verbatim>\<open>data["final"]\<close> as it
  was parsed.
\<close>

record message =
  role :: string
  content :: json

text \<open>
  What the loop does to the world, in order: a request to the chat service with the
  transcript it carried, a line printed, a prompt shown by \<^verbatim>\<open>input\<close>, and a call of a
  function of \<^verbatim>\<open>TOOL_MAP\<close> with the entries of a mapping as its keyword arguments.
\<close>

datatype event =
    Asked "message list"
  | Printed string
  | Prompted string
  | Invoked string json

text \<open>
  The state the loop threads: the transcript \<^verbatim>\<open>messages\<close>, which it mutates in place,
  the lines still to be read from standard input, and the events so far.
\<close>

record state =
  messages :: "message list"
  stdin :: "string list"
  trace :: "event list"

text \<open>
  The services and library functions the loop calls: the chat service behind
  \<^verbatim>\<open>ask_ollama\<close> (the reply, or the exception the client raises), \<^verbatim>\<open>json.loads\<close> (\<open>None\<close>
  when it raises \<^verbatim>\<open>JSONDecodeError\<close>), \<^verbatim>\<open>json.dumps(x, ensure_ascii=False)\<close> and
  \<^verbatim>\<open>json.dumps(x, indent=2, ensure_ascii=False)\<close> (the text, or the exception raised: a
  \<^verbatim>\<open>TypeError\<close> for a value that holds an object \<^verbatim>\<open>json\<close> cannot serialize), \<^verbatim>\<open>str(x)\<close> and
  \<^verbatim>\<open>int(x)\<close> of a value, and \<^verbatim>\<open>TOOL_MAP[name](**args)\<close> for a mapping \<^verbatim>\<open>args\<close>: the value the
  function returns or the exception raised.
\<close>

record env =
  ask_ollama :: "message list \<Rightarrow> exn + string"
  json_loads :: "string \<Rightarrow> json option"
  json_dumps :: "json \<Rightarrow> exn + string"
  json_dumps_indent :: "json \<Rightarrow> exn + string"
  py_str :: "json \<Rightarrow> string"
  py_int :: "json \<Rightarrow> exn + int"
  tool_call :: "string \<Rightarrow> json \<Rightarrow> exn + json"

datatype flow = Continue state | Break state | Raise exn state

definition TOOL_MAP :: "string list" where
  "TOOL_MAP = [''read_file'', ''append_log'', ''run_command'', ''system_info'', ''ping_host'',
               ''scan_port'', ''ssh_command'']"

text \<open>Truth value of a Python value, as \<^verbatim>\<open>x or y\<close> and \<^verbatim>\<open>if x\<close> test it.\<close>

fun truthy :: "json \<Rightarrow> bool" where
  "truthy JNull = False"
| "truthy (JBool b) = b"
| "truthy (JInt n) = (n \<noteq> 0)"
| "truthy (JFloat q) = (q \<noteq> 0)"
| "truthy (JStr s) = (s \<noteq> [])"
| "truthy (JArr xs) = (xs \<noteq> [])"
| "truthy (JObj kvs) = (kvs \<noteq> [])"
| "truthy (JOther r) = True"

definition or_else :: "json \<Rightarrow> json \<Rightarrow> json" where
  "or_else x y = (if truthy x then x else y)"

text \<open>\<^verbatim>\<open>str(x)\<close> and the \<^verbatim>\<open>{x}\<close> of an f-string: a string is itself.\<close>

definition str_of :: "env \<Rightarrow> json \<Rightarrow> string" where
  "str_of env v = (case v of JStr s \<Rightarrow> s | _ \<Rightarrow> py_str env v)"

definition type_name :: "json \<Rightarrow> string" where
  "type_name v =
     (case v of JNull \<Rightarrow> ''NoneType'' | JBool b \<Rightarrow> ''bool'' | JInt n \<Rightarrow> ''int''
      | JFloat q \<Rightarrow> ''float'' | JStr s \<Rightarrow> ''str'' | JArr xs \<Rightarrow> ''list'' | JObj kvs \<Rightarrow> ''dict''
      | JOther r \<Rightarrow> ''object'')"

text \<open>
  \<^verbatim>\<open>args.get(key, default)\<close>: a value that is not a mapping has no \<^verbatim>\<open>get\<close>, and the call
  raises \<^verbatim>\<open>AttributeError\<close>.
\<close>

definition args_get :: "json \<Rightarrow> string \<Rightarrow> json \<Rightarrow> exn + json" where
  "args_get args key dflt =
     (case args of
        JObj kvs \<Rightarrow> Inr (case map_of kvs key of Some v \<Rightarrow> v | None \<Rightarrow> dflt)
      | _ \<Rightarrow> Inl (Exn ''AttributeError''
                   ([CHR 0x27] @ type_name args @ [CHR 0x27] @ '' object has no attribute ''
                    @ [CHR 0x27] @ ''get'' @ [CHR 0x27])))"

text \<open>\<^verbatim>\<open>str.lower()\<close> on one-byte characters.\<close>

definition lower_char :: "char \<Rightarrow> char" where
  "lower_char c =
     (if 65 \<le> (of_char c :: nat) \<and> (of_char c :: nat) \<le> 90 then char_of (of_char c + 32 :: nat)
      else c)"

definition lower :: "string \<Rightarrow> string" where
  "lower s = map lower_char s"

text \<open>\<^verbatim>\<open>_pretty\<close>: a \<^verbatim>\<open>TypeError\<close> of \<^verbatim>\<open>json.dumps\<close> is caught and \<^verbatim>\<open>str(obj)\<close> returned.\<close>

definition pretty :: "env \<Rightarrow> json \<Rightarrow> exn + string" where
  "pretty env obj =
     (case obj of
        JStr s \<Rightarrow> Inr s
      | _ \<Rightarrow>
          (case json_dumps_indent env obj of
             Inr shown \<Rightarrow> Inr shown
           | Inl e \<Rightarrow> if exn_class e = ''TypeError'' then Inr (py_str env obj) else Inl e))"

definition print :: "string \<Rightarrow> state \<Rightarrow> state" where
  "print line s = s\<lparr>trace := trace s @ [Printed line]\<rparr>"

definition append_message :: "string \<Rightarrow> json \<Rightarrow> state \<Rightarrow> state" where
  "append_message r c s = s\<lparr>messages := messages s @ [\<lparr>role = r, content = c\<rparr>]\<rparr>"

text \<open>
  The first part of \<^verbatim>\<open>_confirm_tool\<close>: the preview of the command that will run, \<open>None\<close>
  when none can be shown.
\<close>

definition confirm_preview :: "env \<Rightarrow> string \<Rightarrow> json \<Rightarrow> exn + string option" where
  "confirm_preview env tool_name args =
     (if tool_name = ''run_command'' then
        (case args_get args ''command'' JNull of
           Inl e \<Rightarrow> Inl e
         | Inr cmd \<Rightarrow>
             (case cmd of
                JStr c \<Rightarrow> if strip c \<noteq> [] then Inr (Some c) else Inr None
              | _ \<Rightarrow> Inr None))
      else if tool_name = ''ping_host'' then
        (case args_get args ''host'' (JStr []) of
           Inl e \<Rightarrow> Inl e
         | Inr h \<Rightarrow>
             (let host = strip (str_of env h) in
              if host = [] then Inr None
              else
                (case args_get args ''count'' (JInt 4) of
                   Inl e \<Rightarrow> Inl e
                 | Inr c \<Rightarrow>
                     (case py_int env (or_else c (JInt 4)) of
                        Inl e \<Rightarrow> Inl e
                      | Inr count \<Rightarrow>
                          (case args_get args ''timeout'' (JInt 2) of
                             Inl e \<Rightarrow> Inl e
                           | Inr t \<Rightarrow>
                               (case py_int env (or_else t (JInt 2)) of
                                  Inl e \<Rightarrow> Inl e
                                | Inr timeout \<Rightarrow>
                                    Inr (Some (''ping -c '' @ str_int count @ '' -W ''
                                               @ str_int timeout @ '' '' @ host))))))))
      else if tool_name = ''ssh_command'' then
        (case args_get args ''host'' (JStr []) of
           Inl e \<Rightarrow> Inl e
         | Inr h \<Rightarrow>
             (case args_get args ''command'' (JStr []) of
                Inl e \<Rightarrow> Inl e
              | Inr c \<Rightarrow>
                  (let host = strip (str_of env h); command = strip (str_of env c) in
                   if host = [] \<or> command = [] then Inr None
                   else
                     (case args_get args ''user'' (JStr []) of
                        Inl e \<Rightarrow> Inl e
                      | Inr u \<Rightarrow>
                          (case args_get args ''port'' (JInt 22) of
                             Inl e \<Rightarrow> Inl e
                           | Inr p \<Rightarrow>
                               (case py_int env (or_else p (JInt 22)) of
                                  Inl e \<Rightarrow> Inl e
                                | Inr port \<Rightarrow>
                                    (case args_get args ''key_path'' (JStr []) of
                                       Inl e \<Rightarrow> Inl e
                                     | Inr k \<Rightarrow>
                                         (let user = strip (str_of env u);
                                              key_path = strip (str_of env k);
                                              target = (if user \<noteq> [] then user @ ''@'' @ host
                                                        else host);
                                              parts = [''ssh'', ''-p'', str_int port, ''-o'',
                                                       ''BatchMode=yes'']
                                                      @ (if key_path \<noteq> [] then [''-i'', key_path]
                                                         else [])
                                                      @ [target, command]
                                          in Inr (Some (join_space parts))))))))))
      else Inr None)"

text \<open>The prompt \<^verbatim>\<open>_confirm_tool\<close> shows.\<close>

definition confirm_prompt :: "env \<Rightarrow> string \<Rightarrow> json \<Rightarrow> exn + string" where
  "confirm_prompt env tool_name args =
     (let with_args =
            (case pretty env args of
               Inl e \<Rightarrow> Inl e
             | Inr shown \<Rightarrow>
                 Inr (''Execute tool '' @ [CHR 0x27] @ tool_name @ [CHR 0x27] @ '' with args ''
                      @ shown @ ''? [y/N]: ''))
      in case confirm_preview env tool_name args of
           Inl e \<Rightarrow> Inl e
         | Inr preview \<Rightarrow>
             (case preview of
                Some p \<Rightarrow> if p \<noteq> [] then Inr (''Execute: '' @ p @ ''? [y/N]: '') else with_args
              | None \<Rightarrow> with_args))"

text \<open>
  The \<^verbatim>\<open>while True\<close> loop of \<^verbatim>\<open>_confirm_tool\<close>, on the lines standard input still holds:
  the decision, the lines left and the events of the loop. \<^verbatim>\<open>input\<close> raises \<^verbatim>\<open>EOFError\<close>
  when no line is left.
\<close>

fun read_choice :: "string \<Rightarrow> string list \<Rightarrow> (exn + bool) \<times> string list \<times> event list" where
  "read_choice prompt [] =
     (Inl (Exn ''EOFError'' ''EOF when reading a line''), [], [Prompted prompt])"
| "read_choice prompt (line # rest) =
     (let choice = lower (strip line) in
      if choice = ''y'' \<or> choice = ''yes'' then (Inr True, rest, [Prompted prompt])
      else if choice = ''n'' \<or> choice = ''no'' \<or> choice = [] then
        (Inr False, rest, [Prompted prompt])
      else
        (case read_choice prompt rest of
           (r, rest', evs) \<Rightarrow>
             (r, rest',
              [Prompted prompt,
               Printed (''Please answer '' @ [CHR 0x27] @ ''y'' @ [CHR 0x27] @ '' or ''
                        @ [CHR 0x27] @ ''n'' @ [CHR 0x27] @ ''.'')] @ evs)))"

definition confirm_tool :: "env \<Rightarrow> string \<Rightarrow> json \<Rightarrow> state \<Rightarrow> (exn + bool) \<times> state" where
  "confirm_tool env tool_name args s =
     (case confirm_prompt env tool_name args of
        Inl e \<Rightarrow> (Inl e, s)
      | Inr prompt \<Rightarrow>
          (case read_choice prompt (stdin s) of
             (r, rest, evs) \<Rightarrow> (r, s\<lparr>stdin := rest, trace := trace s @ evs\<rparr>)))"

text \<open>
  \<^verbatim>\<open>TOOL_MAP.get(tool_name)\<close>: the name of the function found, \<open>None\<close> for a key the table
  does not hold; a list or a mapping is not hashable and the lookup raises \<^verbatim>\<open>TypeError\<close>.
\<close>

definition tool_map_get :: "json \<Rightarrow> exn + string option" where
  "tool_map_get tool_name =
     (case tool_name of
        JStr name \<Rightarrow> Inr (if name \<in> set TOOL_MAP then Some name else None)
      | JArr xs \<Rightarrow>
          Inl (Exn ''TypeError'' (''unhashable type: '' @ [CHR 0x27] @ ''list'' @ [CHR 0x27]))
      | JObj kvs \<Rightarrow>
          Inl (Exn ''TypeError'' (''unhashable type: '' @ [CHR 0x27] @ ''dict'' @ [CHR 0x27]))
      | _ \<Rightarrow> Inr None)"

text \<open>\<^verbatim>\<open>args = data.get("args", {}) or {}\<close>.\<close>

definition tool_args :: "json \<Rightarrow> json" where
  "tool_args data =
     or_else (case obj_get data ''args'' of Some a \<Rightarrow> a | None \<Rightarrow> JObj []) (JObj [])"

text \<open>The text shown to the user for a result: its \<^verbatim>\<open>stdout\<close> when it has one.\<close>

definition display_of :: "env \<Rightarrow> json \<Rightarrow> exn + string" where
  "display_of env result =
     (case obj_get result ''stdout'' of
        Some (JStr out) \<Rightarrow> Inr out
      | _ \<Rightarrow>
          (case obj_get result ''result'' of
             Some (JObj inner) \<Rightarrow>
               (case map_of inner ''stdout'' of
                  Some (JStr out) \<Rightarrow> Inr out
                | _ \<Rightarrow> pretty env result)
           | _ \<Rightarrow> pretty env result))"

text \<open>
  The call \<^verbatim>\<open>func(**args)\<close>: its outcome, and the event of the call. When \<^verbatim>\<open>args\<close> is a
  mapping its entries are the keyword arguments of the call, and \<open>tool_call\<close> gives the
  outcome. When \<^verbatim>\<open>args\<close> is not a mapping it cannot be unpacked: \<^verbatim>\<open>TypeError\<close> is raised
  where the call stands and no function of \<^verbatim>\<open>mcp_client\<close> is called.
\<close>

definition call_func :: "env \<Rightarrow> string \<Rightarrow> json \<Rightarrow> (exn + json) \<times> event list" where
  "call_func env name args =
     (case args of
        JObj kvs \<Rightarrow> (tool_call env name args, [Invoked name args])
      | _ \<Rightarrow>
          (Inl (Exn ''TypeError''
                 (''mcp_client.'' @ name @ ''() argument after ** must be a mapping, not ''
                  @ type_name args)),
           []))"

text \<open>
  The \<^verbatim>\<open>result\<close> of the \<^verbatim>\<open>try\<close> statement around the call: the value returned, or the
  result made of the exception caught.
\<close>

definition result_of :: "env \<Rightarrow> string \<Rightarrow> json \<Rightarrow> json" where
  "result_of env name args =
     (case fst (call_func env name args) of
        Inr value \<Rightarrow> value
      | Inl exc \<Rightarrow> failure_result exc)"

text \<open>
  The block under \<^verbatim>\<open>if isinstance(data, dict) and "tool" in data\<close>, for the value
  \<open>tool_name\<close> of \<^verbatim>\<open>data["tool"]\<close>. Only the call of the tool stands in a \<^verbatim>\<open>try\<close>: an
  exception of the lookup, of the confirmation, of \<^verbatim>\<open>_pretty\<close> or of \<^verbatim>\<open>json.dumps(result)\<close>
  leaves the block and the loop.
\<close>

definition dispatch :: "env \<Rightarrow> string \<Rightarrow> json \<Rightarrow> json \<Rightarrow> bool \<Rightarrow> state \<Rightarrow> flow" where
  "dispatch env reply data tool_name assistant_logged s =
     (let args = tool_args data in
      case tool_map_get tool_name of
        Inl e \<Rightarrow> Raise e s
      | Inr func \<Rightarrow>
          (let s1 = (if \<not> assistant_logged then append_message ''assistant'' (JStr reply) s
                     else s)
           in case func of
                None \<Rightarrow>
                  (let error_message = ''Unknown tool '' @ [CHR 0x27] @ str_of env tool_name
                                       @ [CHR 0x27] @ ''.''
                   in Break (append_message ''user'' (JStr error_message)
                               (print (''assistant> '' @ error_message) s1)))
              | Some name \<Rightarrow>
                  (case confirm_tool env name args s1 of
                     (Inl e, s2) \<Rightarrow> Raise e s2
                   | (Inr False, s2) \<Rightarrow>
                       (let decline_msg = ''User declined to run tool '' @ name @ ''.''
                        in Break (append_message ''user'' (JStr decline_msg)
                                    (print (''assistant> '' @ decline_msg) s2)))
                   | (Inr True, s2) \<Rightarrow>
                       (let s3 = s2\<lparr>trace := trace s2 @ snd (call_func env name args)\<rparr>;
                            result = result_of env name args
                        in case display_of env result of
                             Inl e \<Rightarrow> Raise e s3
                           | Inr display \<Rightarrow>
                               (let s4 = print (''[tool:'' @ name @ ''] '' @ display) s3
                                in case json_dumps env result of
                                     Inl e \<Rightarrow> Raise e s4
                                   | Inr dumped \<Rightarrow>
                                       Continue
                                         (append_message ''user''
                                            (JStr (''Tool '' @ name @ '' result: '' @ dumped))
                                            s4))))))"

text \<open>The body of the \<^verbatim>\<open>while True\<close> loop of \<^verbatim>\<open>process_assistant\<close>.\<close>

definition route :: "env \<Rightarrow> string \<Rightarrow> json \<Rightarrow> bool \<Rightarrow> state \<Rightarrow> flow" where
  "route env reply data assistant_logged s =
     (case obj_get data ''tool'' of
        Some tool_name \<Rightarrow> dispatch env reply data tool_name assistant_logged s
      | None \<Rightarrow>
          (case obj_get data ''final'' of
             Some final_message \<Rightarrow>
               Break (append_message ''assistant'' final_message
                        (if \<not> assistant_logged
                         then print (''assistant> '' @ str_of env final_message) s
                         else s))
           | None \<Rightarrow>
               Break (append_message ''assistant'' (JStr reply)
                        (print (''assistant> '' @ reply) s))))"

definition loop_body :: "env \<Rightarrow> state \<Rightarrow> flow" where
  "loop_body env s =
     (let s0 = s\<lparr>trace := trace s @ [Asked (messages s)]\<rparr> in
      case ask_ollama env (messages s) of
        Inl e \<Rightarrow> Raise e s0
      | Inr reply \<Rightarrow>
          (case json_loads env reply of
             Some data \<Rightarrow> route env reply data False s0
           | None \<Rightarrow>
               (case extract_json_object (json_loads env) reply of
                  None \<Rightarrow>
                    Break (append_message ''assistant'' (JStr reply)
                             (print (''assistant> '' @ reply) s0))
                | Some data \<Rightarrow>
                    route env reply data True
                      (append_message ''assistant'' (JStr reply)
                         (print (''assistant> '' @ reply) s0)))))"

text \<open>
  \<^verbatim>\<open>process_assistant\<close>: the loop has no bound on its rounds, so the model counts them
  down. \<open>None\<close> means the rounds given were all used and the loop is still running;
  otherwise the loop has ended, by \<^verbatim>\<open>break\<close> or by an exception that left it.
\<close>

fun process_assistant :: "nat \<Rightarrow> env \<Rightarrow> state \<Rightarrow> (exn option \<times> state) option" where
  "process_assistant 0 env s = None"
| "process_assistant (Suc n) env s =
     (case loop_body env s of
        Continue s' \<Rightarrow> process_assistant n env s'
      | Break s' \<Rightarrow> Some (None, s')
      | Raise e s' \<Rightarrow> Some (Some e, s'))"

text \<open>
  Reading a run: the state a flow leaves, and the transcripts sent to the chat service,
  the tool calls made and the prompts shown, in the order of the events.
\<close>

definition flow_state :: "flow \<Rightarrow> state" where
  "flow_state f = (case f of Continue s \<Rightarrow> s | Break s \<Rightarrow> s | Raise e s \<Rightarrow> s)"

fun requests :: "event list \<Rightarrow> message list list" where
  "requests [] = []"
| "requests (Asked ms # evs) = ms # requests evs"
| "requests (ev # evs) = requests evs"

fun invocations :: "event list \<Rightarrow> (string \<times> json) list" where
  "invocations [] = []"
| "invocations (Invoked name args # evs) = (name, args) # invocations evs"
| "invocations (ev # evs) = invocations evs"

fun prompts :: "event list \<Rightarrow> string list" where
  "prompts [] = []"
| "prompts (Prompted p # evs) = p # prompts evs"
| "prompts (ev # evs) = prompts evs"

text \<open>
  The reply interpreter finds \<open>data\<close> in a reply: the whole reply parses to it, or the
  whole reply does not parse and \<^verbatim>\<open>_extract_json_object\<close> recovers it.
\<close>

definition interpreted :: "env \<Rightarrow> string \<Rightarrow> json \<Rightarrow> bool" where
  "interpreted env reply data =
     (json_loads env reply = Some data
      \<or> (json_loads env reply = None
          \<and> extract_json_object (json_loads env) reply = Some data))"

text \<open>
  One round of tool use, seen on the transcript: \<open>after\<close> is \<open>before\<close>, then the reply of
  the chat service to \<open>before\<close> as an assistant message, then at once the user message
  that serializes the whole result of the tool that reply called, with the arguments it
  gave.
\<close>

definition tool_round :: "env \<Rightarrow> message list \<Rightarrow> message list \<Rightarrow> bool" where
  "tool_round env before after =
     (\<exists>reply data name dumped.
        ask_ollama env before = Inr reply \<and> interpreted env reply data \<and>
        obj_get data ''tool'' = Some (JStr name) \<and> name \<in> set TOOL_MAP \<and>
        json_dumps env (result_of env name (tool_args data)) = Inr dumped \<and>
        after = before
          @ [\<lparr>role = ''assistant'', content = JStr reply\<rparr>,
             \<lparr>role = ''user'',
              content = JStr (''Tool '' @ name @ '' result: '' @ dumped)\<rparr>])"

fun causal :: "env \<Rightarrow> message list list \<Rightarrow> bool" where
  "causal env [] = True"
| "causal env [ms] = True"
| "causal env (ms # ms' # rest) = (tool_round env ms ms' \<and> causal env (ms' # rest))"

text \<open>
  A sample run of the agent. \<open>sample_dumps\<close> stands for \<^verbatim>\<open>json.dumps\<close> on values whose
  strings need no escaping and whose floats are whole, and \<open>sample_json_dumps\<close> raises the
  \<^verbatim>\<open>TypeError\<close> of \<^verbatim>\<open>json.dumps\<close> for a value that holds an object that is not JSON;
  \<open>table_loads\<close> parses exactly the texts \<open>sample_dumps\<close> gives for the values of a table.
\<close>

fun join_comma :: "string list \<Rightarrow> string" where
  "join_comma [] = []"
| "join_comma [x] = x"
| "join_comma (x # y # ys) = x @ '', '' @ join_comma (y # ys)"

fun sample_dumps :: "json \<Rightarrow> string" where
  "sample_dumps JNull = ''null''"
| "sample_dumps (JBool b) = (if b then ''true'' else ''false'')"
| "sample_dumps (JInt n) = str_int n"
| "sample_dumps (JFloat q) = str_int \<lfloor>q\<rfloor> @ ''.0''"
| "sample_dumps (JStr s) = [CHR 0x22] @ s @ [CHR 0x22]"
| "sample_dumps (JArr xs) = ''['' @ join_comma (map sample_dumps xs) @ '']''"
| "sample_dumps (JObj kvs) =
     ''{'' @ join_comma (map (\<lambda>(k, v). [CHR 0x22] @ k @ [CHR 0x22] @ '': '' @ sample_dumps v) kvs)
     @ ''}''"
| "sample_dumps (JOther r) = r"

fun serializable :: "json \<Rightarrow> bool" where
  "serializable (JOther r) = False"
| "serializable (JArr xs) = list_all serializable xs"
| "serializable (JObj kvs) = list_all (\<lambda>(k, v). serializable v) kvs"
| "serializable v = True"

definition sample_json_dumps :: "json \<Rightarrow> exn + string" where
  "sample_json_dumps v =
     (if serializable v then Inr (sample_dumps v)
      else Inl (Exn ''TypeError'' ''Object of type AnyUrl is not JSON serializable''))"

definition table_loads :: "json list \<Rightarrow> string \<Rightarrow> json option" where
  "table_loads vs s = map_of (map (\<lambda>v. (sample_dumps v, v)) vs) s"

definition read_call :: json where
  "read_call = JObj [(''tool'', JStr ''read_file''), (''args'', JObj [(''path'', JStr ''notes.txt'')])]"

definition list_call :: json where
  "list_call = JObj [(''tool'', JStr ''read_file''), (''args'', JArr [JStr ''notes.txt''])]"

definition command_list_call :: json where
  "command_list_call = JObj [(''tool'', JStr ''run_command''), (''args'', JArr [JStr ''ls''])]"

definition unknown_call :: json where
  "unknown_call = JObj [(''tool'', JStr ''format_disk''), (''args'', JObj [])]"

definition final_answer :: json where
  "final_answer = JObj [(''final'', JStr ''done'')]"

text \<open>
  The chat service of the sample calls a tool on the first request of the turn and gives
  its final answer afterwards; \<open>tools\<close> is what the functions of \<^verbatim>\<open>TOOL_MAP\<close> do.
\<close>

definition sample_env :: "json \<Rightarrow> (string \<Rightarrow> json \<Rightarrow> exn + json) \<Rightarrow> env" where
  "sample_env call tools =
     \<lparr> ask_ollama = (\<lambda>ms. Inr (if length ms \<le> 2 then sample_dumps call
                                else sample_dumps final_answer)),
       json_loads = table_loads [read_call, list_call, command_list_call, unknown_call,
                                 final_answer],
       json_dumps = sample_json_dumps,
       json_dumps_indent = sample_json_dumps,
       py_str = sample_dumps,
       py_int = (\<lambda>v. case v of JInt n \<Rightarrow> Inr n
                       | _ \<Rightarrow> Inl (Exn ''TypeError'' ''int() argument must be a number'')),
       tool_call = tools \<rparr>"

definition sample_state :: "string list \<Rightarrow> state" where
  "sample_state lines =
     \<lparr> messages = [\<lparr>role = ''system'', content = JStr ''You are a helpful assistant.''\<rparr>,
                   \<lparr>role = ''user'', content = JStr ''show my notes''\<rparr>],
       stdin = lines,
       trace = [] \<rparr>"


definition notes_worker :: "string \<Rightarrow> json \<Rightarrow> exn + json" where
  "notes_worker name args = Inr (JObj [(''content'', JStr ''hello'')])"

definition sample_prompt :: string where
  "sample_prompt = ''Execute tool '' @ [CHR 0x27] @ ''read_file'' @ [CHR 0x27] @ '' with args ''
                   @ sample_dumps (JObj [(''path'', JStr ''notes.txt'')]) @ ''? [y/N]: ''"

text \<open>
  The reduction of a content block as the specification words it: a block is reduced to
  its text when present (a text block to its text, a resource block to its inline text),
  and to its full structural form otherwise.
\<close>

definition spec_reduce_block :: "block \<Rightarrow> json" where
  "spec_reduce_block b =
     (if block_type b = Some ''text'' then JStr (block_text b)
      else if block_type b = Some ''resource'' then
        (case block_resource b of
           Some r \<Rightarrow> (case resource_text r of Some t \<Rightarrow> JStr t | None \<Rightarrow> block_dump b)
         | None \<Rightarrow> block_dump b)
      else block_dump b)"

text \<open>Sample inputs: a host without load average and uptime, and a binary resource block.\<close>

definition windows_host :: host where
  "windows_host =
     \<lparr> platform_platform = ''Windows-10-10.0.19045-SP0'', platform_system = ''Windows'',
       platform_release = ''10'', platform_python_version = ''3.12.0'',
       platform_machine = ''AMD64'', os_cpu_count = Some 8, os_has_getloadavg = False,
       os_getloadavg = None, proc_uptime = None \<rparr>"

definition linux_host :: host where
  "linux_host =
     \<lparr> platform_platform = ''Linux-6.1.0-x86_64'', platform_system = ''Linux'',
       platform_release = ''6.1.0'', platform_python_version = ''3.12.0'',
       platform_machine = ''x86_64'', os_cpu_count = Some 4, os_has_getloadavg = True,
       os_getloadavg = Some (1 / 2, 1 / 4, 1 / 8), proc_uptime = Some (12345 / 100) \<rparr>"

definition blob_dump :: json where
  "blob_dump = JObj [(''uri'', JStr ''file:///a.bin''), (''blob'', JStr ''AAEC'')]"

definition blob_block :: block where
  "blob_block =
     \<lparr> block_type = Some ''resource'', block_text = [],
       block_resource = Some \<lparr> resource_text = None, resource_dump = blob_dump \<rparr>,
       block_dump = JObj [(''type'', JStr ''resource''), (''resource'', blob_dump)] \<rparr>"

definition text_block :: "string \<Rightarrow> block" where
  "text_block t =
     \<lparr> block_type = Some ''text'', block_text = t, block_resource = None,
       block_dump = JObj [(''type'', JStr ''text''), (''text'', JStr t)] \<rparr>"

definition reply_of :: "block list \<Rightarrow> call_tool_result" where
  "reply_of bs =
     \<lparr> isError = False, structuredContent = None, content_blocks = bs, result_dump = [] \<rparr>"




section \<open>The invocation boundary of run\_command\<close>

text \<open>
  C8. A call of \<^verbatim>\<open>run_command\<close> with \<open>timeout \<le> 0\<close> raises \<^verbatim>\<open>ValueError\<close> and opens no worker
  session; with \<open>timeout > 0\<close> it is one call of the bridge, which opens exactly one session
  carrying the tool name \<^verbatim>\<open>run_command\<close>, the command and the timeout.
\<close>

theorem run_command_timeout_boundary:
  "(timeout \<le> 0 \<longrightarrow>
      client_run_command worker command timeout =
        (Inl (Exn ''ValueError'' ''timeout must be positive''), []))
   \<and> (0 < timeout \<longrightarrow>
      client_run_command worker command timeout =
        call_tool worker ''run_command''
          (JObj [(''command'', JStr command), (''timeout'', JInt timeout)])
      \<and> snd (client_run_command worker command timeout) =
        [(''run_command'', JObj [(''command'', JStr command), (''timeout'', JInt timeout)])])"
  by (simp add: client_run_command_def call_tool_def)

theorem run_command_timeout_boundary_witness:
  "client_run_command (\<lambda>n a. Inl (Exn ''McpError'' ''Connection closed'')) ''ls'' 0 =
     (Inl (Exn ''ValueError'' ''timeout must be positive''), [])
   \<and> snd (client_run_command (\<lambda>n a. Inl (Exn ''McpError'' ''Connection closed'')) ''ls'' 30) =
     [(''run_command'', JObj [(''command'', JStr ''ls''), (''timeout'', JInt 30)])]"
  using run_command_timeout_boundary
          [of 0 "\<lambda>n a. Inl (Exn ''McpError'' ''Connection closed'')" "''ls''"]
        run_command_timeout_boundary
          [of 30 "\<lambda>n a. Inl (Exn ''McpError'' ''Connection closed'')" "''ls''"]
  by (simp add: call_tool_def)

section \<open>The scan of a balanced span\<close>

lemma scan_string_body:
  "string_body b \<Longrightarrow>
   scan (b @ CHR 0x22 # rest) idx d True False = scan rest (idx + length b + 1) d False False"
  by (induction b arbitrary: idx rule: string_body.induct) (simp_all add: add.assoc)

lemma scan_members:
  "members a \<Longrightarrow> 0 < d \<Longrightarrow>
   scan (a @ rest) idx d False False = scan rest (idx + length a) d False False"
proof (induction a arbitrary: idx d rest rule: members.induct)
  case mb_end
  then show ?case by simp
next
  case (mb_char c s)
  then show ?case by simp
next
  case (mb_string b s)
  have "scan ((CHR 0x22 # b @ CHR 0x22 # s) @ rest) idx d False False
        = scan (b @ CHR 0x22 # (s @ rest)) (idx + 1) d True False"
    by simp
  also have "\<dots> = scan (s @ rest) (idx + 1 + length b + 1) d False False"
    using scan_string_body [OF mb_string.hyps(1)] by simp
  also have "\<dots> = scan rest (idx + 1 + length b + 1 + length s) d False False"
    using mb_string.IH mb_string.prems by simp
  finally show ?case by (simp add: add.assoc)
next
  case (mb_object a s)
  have "scan ((CHR ''{'' # a @ CHR ''}'' # s) @ rest) idx d False False
        = scan (a @ (CHR ''}'' # s @ rest)) (idx + 1) (d + 1) False False"
    by simp
  also have "\<dots> = scan (CHR ''}'' # s @ rest) (idx + 1 + length a) (d + 1) False False"
    using mb_object.IH(1) [of "d + 1"] mb_object.prems by simp
  also have "\<dots> = scan (s @ rest) (idx + 1 + length a + 1) d False False"
    using mb_object.prems by simp
  also have "\<dots> = scan rest (idx + 1 + length a + 1 + length s) d False False"
    using mb_object.IH(2) mb_object.prems by simp
  finally show ?case by (simp add: add.assoc)
qed

lemma scan_object_text:
  assumes "object_text obj"
  shows "scan (obj @ rest) idx 0 False False = Some (idx + length obj - 1)"
proof -
  from assms obtain a where a: "members a" and obj: "obj = CHR ''{'' # a @ [CHR ''}'']"
    by (auto simp: object_text_def)
  have "scan (obj @ rest) idx 0 False False = scan (a @ (CHR ''}'' # rest)) (idx + 1) 1 False False"
    by (simp add: obj)
  also have "\<dots> = scan (CHR ''}'' # rest) (idx + 1 + length a) 1 False False"
    using scan_members [OF a, of 1] by simp
  also have "\<dots> = Some (idx + 1 + length a)" by simp
  finally show ?thesis by (simp add: obj)
qed

lemma find_char_Some:
  "find_char c xs k = Some i \<Longrightarrow>
   k \<le> i \<and> i - k < length xs \<and> xs ! (i - k) = c \<and> (\<forall>m < i - k. xs ! m \<noteq> c)"
proof (induction xs arbitrary: k)
  case Nil
  then show ?case by simp
next
  case (Cons x xs)
  show ?case
  proof (cases "x = c")
    case True
    with Cons.prems show ?thesis by simp
  next
    case False
    with Cons.prems have "find_char c xs (k + 1) = Some i" by simp
    from Cons.IH [OF this] have ih: "k + 1 \<le> i" "i - (k + 1) < length xs"
      "xs ! (i - (k + 1)) = c" "\<forall>m < i - (k + 1). xs ! m \<noteq> c" by auto
    have "(x # xs) ! (i - k) = c" using ih by (simp add: nth_Cons')
    moreover have "\<forall>m < i - k. (x # xs) ! m \<noteq> c"
      using ih False by (auto simp: nth_Cons' less_diff_conv)
    ultimately show ?thesis using ih by auto
  qed
qed

lemma find_char_None: "find_char c xs k = None \<longleftrightarrow> c \<notin> set xs"
  by (induction xs arbitrary: k) auto

lemma find_Some:
  assumes "find_from text c k = Some i"
  shows "k \<le> i \<and> i < length text \<and> text ! i = c \<and> (\<forall>j. k \<le> j \<and> j < i \<longrightarrow> text ! j \<noteq> c)"
proof -
  from find_char_Some [OF assms [unfolded find_from_def]]
  have a: "k \<le> i" "i - k < length (drop k text)" "drop k text ! (i - k) = c"
    "\<forall>m < i - k. drop k text ! m \<noteq> c" by auto
  have lt: "i < length text" using a(1,2) by simp
  have "\<forall>j. k \<le> j \<and> j < i \<longrightarrow> text ! j \<noteq> c"
  proof (intro allI impI)
    fix j assume j: "k \<le> j \<and> j < i"
    then have "j - k < i - k" by arith
    then have "drop k text ! (j - k) \<noteq> c" using a(4) by blast
    then show "text ! j \<noteq> c" using j lt by simp
  qed
  then show ?thesis using a lt by simp
qed

lemma find_None:
  assumes "find_from text c k = None" "k \<le> j" "j < length text"
  shows "text ! j \<noteq> c"
proof -
  have "c \<notin> set (drop k text)" using assms(1) by (simp add: find_from_def find_char_None)
  moreover have "drop k text ! (j - k) \<in> set (drop k text)"
    using assms(2,3) by (intro nth_mem) simp
  then have "text ! j \<in> set (drop k text)"
    using assms(2,3) by simp
  ultimately show ?thesis by auto
qed

section \<open>The first object that parses\<close>

lemma extract_from_step:
  "start_fails loads text i \<Longrightarrow>
   extract_from loads text (Some i) = extract_from loads text (find_from text CHR ''{'' (i + 1))"
  by (simp add: start_fails_def split: option.splits)

lemma extract_from_first:
  assumes tdef: "text = pre @ obj @ post" and obj: "object_text obj" and v: "loads obj = Some v"
    and first: "\<forall>i<length pre. text ! i = CHR ''{'' \<longrightarrow> (\<forall>j. loads (slice text i j) = None)"
  shows "k \<le> length pre \<Longrightarrow> extract_from loads text (find_from text CHR ''{'' k) = Some v"
proof (induction "length pre - k" arbitrary: k rule: less_induct)
  case less
  from obj obtain a where obj_eq: "obj = CHR ''{'' # a @ [CHR ''}'']"
    by (auto simp: object_text_def)
  have at: "text ! length pre = CHR ''{''" by (simp add: tdef obj_eq nth_append)
  have lt: "length pre < length text" by (simp add: tdef obj_eq)
  have "find_from text CHR ''{'' k \<noteq> None"
    using find_None [of "text" "CHR ''{''" k "length pre"] at lt less.prems by blast
  then obtain i where i: "find_from text CHR ''{'' k = Some i" by blast
  from find_Some [OF i] have ki: "k \<le> i" and il: "i < length text"
    and ti: "text ! i = CHR ''{''" and min: "\<forall>j. k \<le> j \<and> j < i \<longrightarrow> text ! j \<noteq> CHR ''{''"
    by auto
  have ile: "i \<le> length pre"
  proof (rule ccontr)
    assume "\<not> i \<le> length pre"
    then have "k \<le> length pre \<and> length pre < i" using less.prems by simp
    with min at show False by blast
  qed
  show ?case
  proof (cases "i = length pre")
    case True
    have d: "drop i text = obj @ post" by (simp add: True tdef)
    have sc: "scan (drop i text) i 0 False False = Some (i + length obj - 1)"
      unfolding d by (rule scan_object_text [OF obj])
    have sl: "slice text i (i + length obj - 1 + 1) = obj"
      by (simp add: slice_def d obj_eq)
    show ?thesis using sl v by (simp add: i sc)
  next
    case False
    with ile have ilt: "i < length pre" by simp
    have "\<forall>j. loads (slice text i j) = None" using first ilt ti by blast
    then have "start_fails loads text i" by (simp add: start_fails_def split: option.splits)
    then have "extract_from loads text (Some i)
               = extract_from loads text (find_from text CHR ''{'' (i + 1))"
      by (rule extract_from_step)
    also have "\<dots> = Some v"
      using less.hyps [of "i + 1"] ilt ki by simp
    finally show ?thesis by (simp add: i)
  qed
qed

lemma extract_from_none:
  assumes none: "\<forall>i<length text. text ! i = CHR ''{'' \<longrightarrow> (\<forall>j. loads (slice text i j) = None)"
  shows "extract_from loads text (find_from text CHR ''{'' k) = None"
proof (induction "length text - k" arbitrary: k rule: less_induct)
  case less
  show ?case
  proof (cases "find_from text CHR ''{'' k")
    case None
    then show ?thesis by simp
  next
    case (Some i)
    from find_Some [OF Some] have ki: "k \<le> i" and il: "i < length text"
      and ti: "text ! i = CHR ''{''" by auto
    have "\<forall>j. loads (slice text i j) = None" using none il ti by blast
    then have "start_fails loads text i" by (simp add: start_fails_def split: option.splits)
    then have "extract_from loads text (Some i)
               = extract_from loads text (find_from text CHR ''{'' (i + 1))"
      by (rule extract_from_step)
    also have "\<dots> = None" using less.hyps [of "i + 1"] il ki by simp
    finally show ?thesis by (simp add: Some)
  qed
qed

lemma extract_from_sound:
  assumes "extract_from loads text (find_from text CHR ''{'' k) = Some v"
    and "\<forall>i<k. text ! i = CHR ''{'' \<longrightarrow> start_fails loads text i"
  shows "\<exists>i idx. i < length text \<and> text ! i = CHR ''{''
           \<and> scan (drop i text) i 0 False False = Some idx
           \<and> loads (slice text i (idx + 1)) = Some v
           \<and> (\<forall>i'<i. text ! i' = CHR ''{'' \<longrightarrow> start_fails loads text i')"
  using assms
proof (induction "length text - k" arbitrary: k rule: less_induct)
  case less
  show ?case
  proof (cases "find_from text CHR ''{'' k")
    case None
    with less.prems show ?thesis by simp
  next
    case (Some i)
    from find_Some [OF Some] have ki: "k \<le> i" and il: "i < length text"
      and ti: "text ! i = CHR ''{''" and min: "\<forall>j. k \<le> j \<and> j < i \<longrightarrow> text ! j \<noteq> CHR ''{''"
      by auto
    have before: "\<forall>i'<i. text ! i' = CHR ''{'' \<longrightarrow> start_fails loads text i'"
    proof (intro allI impI)
      fix i' assume a: "i' < i" "text ! i' = CHR ''{''"
      then have "i' < k" using min by (meson not_le_imp_less)
      then show "start_fails loads text i'" using less.prems(2) a(2) by blast
    qed
    show ?thesis
    proof (cases "start_fails loads text i")
      case True
      then have "extract_from loads text (find_from text CHR ''{'' (i + 1)) = Some v"
        using less.prems(1) Some extract_from_step [OF True] by simp
      moreover have "\<forall>i'<i + 1. text ! i' = CHR ''{'' \<longrightarrow> start_fails loads text i'"
        using before True by (auto simp: less_Suc_eq)
      ultimately show ?thesis using less.hyps [of "i + 1"] il ki by simp
    next
      case False
      then obtain idx w where sc: "scan (drop i text) i 0 False False = Some idx"
        and w: "loads (slice text i (idx + 1)) = Some w"
        by (auto simp: start_fails_def split: option.splits)
      then have "extract_from loads text (Some i) = Some w" by simp
      with less.prems(1) Some have "w = v" by simp
      with sc w il ti before show ?thesis by blast
    qed
  qed
qed

lemma sample_object_text: "object_text sample_object"
proof -
  have "string_body ''a''" by (intro string_body.intros) simp_all
  then have "members ([CHR 0x22] @ ''a'' @ [CHR 0x22] @ '':1'')"
    using mb_string [of "''a''" "'':1''"] by (simp add: members.intros)
  then show ?thesis by (simp add: object_text_def sample_object_def)
qed

lemma sample_first:
  "\<forall>i<length sample_prose. (sample_prose @ sample_object @ '' ok'') ! i = CHR ''{''
     \<longrightarrow> (\<forall>j. sample_loads (slice (sample_prose @ sample_object @ '' ok'') i j) = None)"
proof (intro allI impI)
  fix i j
  assume i: "i < length sample_prose"
    and b: "(sample_prose @ sample_object @ '' ok'') ! i = CHR ''{''"
  have "i \<in> {0..<13}" using i by (simp add: sample_prose_def)
  then have "i = 5" using b
    by (simp add: sample_prose_def sample_object_def atLeastLessThan_def nth_Cons')
       (auto simp: less_Suc_eq numeral_eq_Suc split: if_splits)
  have "slice (sample_prose @ sample_object @ '' ok'') 5 j \<noteq> sample_object"
  proof
    assume eq: "slice (sample_prose @ sample_object @ '' ok'') 5 j = sample_object"
    then have "length (slice (sample_prose @ sample_object @ '' ok'') 5 j) = 7"
      by (simp add: sample_object_def)
    then have "j - 5 = 7" by (simp add: slice_def sample_prose_def sample_object_def)
    with eq show False by (simp add: slice_def sample_prose_def sample_object_def)
  qed
  then show "sample_loads (slice (sample_prose @ sample_object @ '' ok'') i j) = None"
    using \<open>i = 5\<close> by (simp add: sample_loads_def)
qed

text \<open>
  C1. \<^verbatim>\<open>_extract_json_object\<close> recovers the first object embedded in a text. Let the text
  be \<open>pre @ obj @ post\<close>, where \<open>obj\<close> has the lexical shape of a JSON object and parses
  to \<open>v\<close>, and where nothing that starts at a brace of \<open>pre\<close> parses (no object starts
  earlier, whatever braces and quotes the prose holds): the result is \<open>v\<close>. When nothing
  that starts at a brace parses, the result is \<^verbatim>\<open>None\<close>. And a result \<open>v\<close> is always the
  parse of the balanced span found from a brace of the text, every earlier brace having
  failed: its scan ran off the end of the text, or its balanced span did not parse.
\<close>

theorem extract_json_object_first_object:
  "(text = pre @ obj @ post \<and> object_text obj \<and> loads obj = Some v
      \<and> (\<forall>i<length pre. text ! i = CHR ''{'' \<longrightarrow> (\<forall>j. loads (slice text i j) = None))
     \<longrightarrow> extract_json_object loads text = Some v)
   \<and> ((\<forall>i<length text. text ! i = CHR ''{'' \<longrightarrow> (\<forall>j. loads (slice text i j) = None))
     \<longrightarrow> extract_json_object loads text = None)
   \<and> (extract_json_object loads text = Some v
     \<longrightarrow> (\<exists>i idx. i < length text \<and> text ! i = CHR ''{''
            \<and> scan (drop i text) i 0 False False = Some idx
            \<and> loads (slice text i (idx + 1)) = Some v
            \<and> (\<forall>i'<i. text ! i' = CHR ''{'' \<longrightarrow> start_fails loads text i')))"
proof (intro conjI impI)
  assume "text = pre @ obj @ post \<and> object_text obj \<and> loads obj = Some v
      \<and> (\<forall>i<length pre. text ! i = CHR ''{'' \<longrightarrow> (\<forall>j. loads (slice text i j) = None))"
  then show "extract_json_object loads text = Some v"
    unfolding extract_json_object_def
    using extract_from_first [of "text" pre obj post loads v 0] by blast
next
  assume "\<forall>i<length text. text ! i = CHR ''{'' \<longrightarrow> (\<forall>j. loads (slice text i j) = None)"
  then show "extract_json_object loads text = None"
    unfolding extract_json_object_def by (rule extract_from_none)
next
  assume "extract_json_object loads text = Some v"
  then show "\<exists>i idx. i < length text \<and> text ! i = CHR ''{''
            \<and> scan (drop i text) i 0 False False = Some idx
            \<and> loads (slice text i (idx + 1)) = Some v
            \<and> (\<forall>i'<i. text ! i' = CHR ''{'' \<longrightarrow> start_fails loads text i')"
    unfolding extract_json_object_def
    using extract_from_sound [of loads "text" 0 v] by simp
qed

theorem extract_json_object_first_object_witness:
  "extract_json_object sample_loads (sample_prose @ sample_object @ '' ok'')
     = Some (JObj [(''a'', JInt 1)])
   \<and> extract_json_object sample_loads ''no object here'' = None"
proof -
  have v: "sample_loads sample_object = Some (JObj [(''a'', JInt 1)])"
    by (simp add: sample_loads_def)
  have none: "\<forall>i<length ''no object here''. ''no object here'' ! i = CHR ''{''
                \<longrightarrow> (\<forall>j. sample_loads (slice ''no object here'' i j) = None)"
    by (auto simp: less_Suc_eq numeral_eq_Suc nth_Cons')
  show ?thesis
    using extract_json_object_first_object
            [of "sample_prose @ sample_object @ '' ok''" sample_prose sample_object "'' ok''"
                sample_loads "JObj [(''a'', JInt 1)]"]
          extract_json_object_first_object
            [of "''no object here''" "[]" "[]" "[]" sample_loads JNull]
          sample_object_text sample_first v none
    by blast
qed

section \<open>The normalization of a worker reply\<close>

text \<open>
  C2, as stated, at a binary resource block: the specification reduces a block with no
  text to the block's full structural form, \<^verbatim>\<open>_normalize_result\<close> returns the structural
  form of the embedded resource, which lacks the block's \<^verbatim>\<open>type\<close> and wrapping.
\<close>

theorem normalize_result_counterexample:
  "normalize_result (reply_of [blob_block]) \<noteq> Inr (spec_reduce_block blob_block)"
  by (simp add: normalize_result_def reply_of_def reduce_block_def spec_reduce_block_def
        blob_block_def blob_dump_def)

text \<open>
  C2, amended. A reply with the error flag raises a \<^verbatim>\<open>RuntimeError\<close> whose message carries
  the dump of the reply; otherwise a structured payload is returned as it is; otherwise
  no block gives \<^verbatim>\<open>None\<close>, one block gives its reduced value, and two or more give the
  list of reduced values in order. A text block reduces to its text, a resource block to
  the inline text of its resource when there is one and else to the structural form of
  the resource (of the block, when it holds no resource), any other block to its own
  structural form.
\<close>

theorem normalize_result_cases:
  "(isError r \<longrightarrow>
      normalize_result r = Inl (Exn ''RuntimeError'' (''Tool call failed: '' @ result_dump r)))
   \<and> (\<not> isError r \<and> structuredContent r = Some payload \<longrightarrow> normalize_result r = Inr payload)
   \<and> (\<not> isError r \<and> structuredContent r = None \<and> content_blocks r = [] \<longrightarrow>
        normalize_result r = Inr JNull)
   \<and> (\<not> isError r \<and> structuredContent r = None \<and> content_blocks r = [b] \<longrightarrow>
        normalize_result r = Inr (reduce_block b))
   \<and> (\<not> isError r \<and> structuredContent r = None \<and> 2 \<le> length (content_blocks r) \<longrightarrow>
        normalize_result r = Inr (JArr (map reduce_block (content_blocks r))))
   \<and> (block_type b = Some ''text'' \<longrightarrow> reduce_block b = JStr (block_text b))
   \<and> (block_type b = Some ''resource'' \<and> block_resource b = Some res
        \<and> resource_text res = Some t \<longrightarrow> reduce_block b = JStr t)
   \<and> (block_type b = Some ''resource'' \<and> block_resource b = Some res
        \<and> resource_text res = None \<longrightarrow> reduce_block b = resource_dump res)
   \<and> (block_type b = Some ''resource'' \<and> block_resource b = None \<longrightarrow>
        reduce_block b = block_dump b)
   \<and> (block_type b \<noteq> Some ''text'' \<and> block_type b \<noteq> Some ''resource'' \<longrightarrow>
        reduce_block b = block_dump b)"
proof -
  have two: "2 \<le> length (content_blocks r) \<Longrightarrow> content_blocks r \<noteq> [] \<and> length (content_blocks r) \<noteq> 1"
    by auto
  show ?thesis
    using two by (simp add: normalize_result_def reduce_block_def Let_def)
qed

theorem normalize_result_cases_witness:
  "normalize_result \<lparr> isError = True, structuredContent = None, content_blocks = [],
       result_dump = ''{isError: True}'' \<rparr>
     = Inl (Exn ''RuntimeError'' ''Tool call failed: {isError: True}'')
   \<and> normalize_result \<lparr> isError = False, structuredContent = Some (JObj [(''status'', JStr ''ok'')]),
       content_blocks = [text_block ''ignored''], result_dump = [] \<rparr>
     = Inr (JObj [(''status'', JStr ''ok'')])
   \<and> normalize_result (reply_of []) = Inr JNull
   \<and> normalize_result (reply_of [text_block ''one'']) = Inr (JStr ''one'')
   \<and> normalize_result (reply_of [text_block ''one'', blob_block])
     = Inr (JArr [JStr ''one'', blob_dump])"
  using normalize_result_cases
          [of "\<lparr> isError = True, structuredContent = None, content_blocks = [],
                  result_dump = ''{isError: True}'' \<rparr>"]
        normalize_result_cases
          [of "\<lparr> isError = False, structuredContent = Some (JObj [(''status'', JStr ''ok'')]),
                  content_blocks = [text_block ''ignored''], result_dump = [] \<rparr>"
              "JObj [(''status'', JStr ''ok'')]"]
        normalize_result_cases [of "reply_of []"]
        normalize_result_cases [of "reply_of [text_block ''one'']" _ "text_block ''one''"]
        normalize_result_cases [of "reply_of [text_block ''one'', blob_block]" _ "text_block ''one''"]
        normalize_result_cases [of _ _ blob_block "\<lparr> resource_text = None, resource_dump = blob_dump \<rparr>"]
  by (simp add: reply_of_def text_block_def blob_block_def)

section \<open>The results of the worker's tools\<close>

lemma proc_result_shape:
  "tool_result_shape (JObj (proc_result result @ [(''command'', JStr c)]))
   \<or> failed_process_shape (JObj (proc_result result @ [(''command'', JStr c)]))"
  by (simp add: tool_result_shape_def failed_process_shape_def proc_result_def obj_get_def
        is_message_def Let_def)

lemma error_shape:
  "tool_result_shape (JObj [(''status'', JStr ''error''), (''error'', JStr m)])"
  by (simp add: tool_result_shape_def obj_get_def is_message_def)

lemma append_log_shape: "tool_result_shape (append_log open_append path text)"
  by (simp add: append_log_def tool_result_shape_def obj_get_def is_message_def
        split: option.splits)

lemma scan_port_shape: "tool_result_shape (fst (scan_port connect host port ftimeout))"
  by (simp add: scan_port_def tool_result_shape_def obj_get_def is_message_def
        split: sum.splits)

lemma run_command_shape:
  "tool_result_shape (run_command run_shell command timeout)
   \<or> failed_process_shape (run_command run_shell command timeout)"
  using proc_result_shape
  by (auto simp: run_command_def error_shape split: sum.splits)

lemma ping_host_shape:
  "tool_result_shape (ping_host which run_argv quote host count timeout)
   \<or> failed_process_shape (ping_host which run_argv quote host count timeout)"
  using proc_result_shape
  by (auto simp: ping_host_def error_shape Let_def split: sum.splits option.splits)

lemma ssh_command_shape:
  "tool_result_shape (ssh_command which run_argv quote host command user port key_path timeout)
   \<or> failed_process_shape
        (ssh_command which run_argv quote host command user port key_path timeout)"
  using proc_result_shape
  by (auto simp: ssh_command_def error_shape Let_def split: sum.splits option.splits)

lemma read_file_no_status: "obj_get (read_file open_read path) ''status'' = None"
  by (simp add: read_file_def obj_get_def split: sum.splits)

lemma system_info_no_status: "obj_get (system_info h) ''status'' = None"
  by (simp add: system_info_def obj_get_def Let_def)

text \<open>
  C5, as stated, at three results of the worker: \<^verbatim>\<open>read_file\<close> of a readable file returns
  \<^verbatim>\<open>{"content": ...}\<close> and of a missing file \<^verbatim>\<open>{"error": ..., "content": ""}\<close>, neither with a
  \<^verbatim>\<open>status\<close>; \<^verbatim>\<open>system_info\<close> returns the host's facts with no \<^verbatim>\<open>status\<close>; and a command that
  exits with a code other than zero gives \<^verbatim>\<open>status: error\<close> with no \<^verbatim>\<open>error\<close> message.
\<close>

theorem tool_result_shape_counterexample:
  "\<not> tool_result_shape (read_file (\<lambda>p. Inr ''hello'') ''notes.txt'')
   \<and> \<not> tool_result_shape
         (read_file (\<lambda>p. Inl (Exn ''FileNotFoundError'' ''No such file or directory'')) ''gone'')
   \<and> \<not> tool_result_shape (system_info linux_host)
   \<and> \<not> tool_result_shape
         (run_command (\<lambda>c t. Inr \<lparr>returncode = 1, stdout = [], stderr = ''boom''\<rparr>) ''false'' 30)"
  by (simp add: tool_result_shape_def read_file_def run_command_def proc_result_def obj_get_def
        is_message_def strip_def isspace_def system_info_def linux_host_def)

text \<open>
  C5, amended. Every value \<^verbatim>\<open>append_log\<close> and \<^verbatim>\<open>scan_port\<close> return, and every failure
  result the dispatcher makes of an exception, is a mapping whose \<^verbatim>\<open>status\<close> is \<^verbatim>\<open>ok\<close> or
  \<^verbatim>\<open>error\<close>, with an \<^verbatim>\<open>error\<close> message when it is \<^verbatim>\<open>error\<close>. Every value \<^verbatim>\<open>run_command\<close>,
  \<^verbatim>\<open>ping_host\<close> and \<^verbatim>\<open>ssh_command\<close> return has that shape, or is the result of a process that
  exited with a code other than zero: \<^verbatim>\<open>status\<close> is \<^verbatim>\<open>error\<close>, and the return code and the
  captured output are there in place of an \<^verbatim>\<open>error\<close> message. The mappings \<^verbatim>\<open>read_file\<close> and
  \<^verbatim>\<open>system_info\<close> return have no \<^verbatim>\<open>status\<close> field.
\<close>

theorem tool_result_shapes:
  "tool_result_shape (append_log open_append path line)
   \<and> tool_result_shape (fst (scan_port connect host port ftimeout))
   \<and> tool_result_shape (failure_result exc)
   \<and> (tool_result_shape (run_command run_shell command timeout)
        \<or> failed_process_shape (run_command run_shell command timeout))
   \<and> (tool_result_shape (ping_host which run_argv quote host count timeout)
        \<or> failed_process_shape (ping_host which run_argv quote host count timeout))
   \<and> (tool_result_shape (ssh_command which run_argv quote host command user port key_path timeout)
        \<or> failed_process_shape
             (ssh_command which run_argv quote host command user port key_path timeout))
   \<and> obj_get (read_file open_read path) ''status'' = None
   \<and> obj_get (system_info h) ''status'' = None"
  using append_log_shape scan_port_shape run_command_shape ping_host_shape ssh_command_shape
    read_file_no_status system_info_no_status error_shape
  by (simp add: failure_result_def)

theorem tool_result_shapes_witness:
  "tool_result_shape (append_log (\<lambda>p l. None) ''threat.log'' ''note'')
   \<and> tool_result_shape (failure_result (Exn ''ValueError'' ''timeout must be positive''))
   \<and> failed_process_shape
        (run_command (\<lambda>c t. Inr \<lparr>returncode = 1, stdout = [], stderr = ''boom''\<rparr>) ''false'' 30)
   \<and> obj_get (read_file (\<lambda>p. Inr ''hello'') ''notes.txt'') ''status'' = None"
proof -
  have "\<not> tool_result_shape
          (run_command (\<lambda>c t. Inr \<lparr>returncode = 1, stdout = [], stderr = ''boom''\<rparr>) ''false'' 30)"
    by (simp add: tool_result_shape_def run_command_def proc_result_def obj_get_def
          is_message_def strip_def isspace_def)
  then show ?thesis
    using tool_result_shapes
            [where open_append = "\<lambda>p l. None" and path = "''threat.log''" and line = "''note''"
               and exc = "Exn ''ValueError'' ''timeout must be positive''"
               and run_shell = "\<lambda>c t. Inr \<lparr>returncode = 1, stdout = [], stderr = ''boom''\<rparr>"
               and command = "''false''" and timeout = 30]
          tool_result_shapes [where open_read = "\<lambda>p. Inr ''hello''" and path = "''notes.txt''"]
    by simp
qed

section \<open>system\_info on a host without load average or uptime\<close>

text \<open>
  C9, as stated, on a host whose \<^verbatim>\<open>os\<close> has no \<^verbatim>\<open>getloadavg\<close> and that has no
  \<^verbatim>\<open>/proc/uptime\<close>: the two fields are not absent from the mapping, their keys are there
  and hold \<^verbatim>\<open>None\<close>.
\<close>

theorem system_info_absent_counterexample:
  "obj_get (system_info windows_host) ''load_avg'' \<noteq> None
   \<and> obj_get (system_info windows_host) ''uptime_seconds'' \<noteq> None"
  by (simp add: system_info_def obj_get_def windows_host_def)

text \<open>
  C9, amended. \<^verbatim>\<open>system_info\<close> always returns a mapping with the same eight keys. The
  value of \<^verbatim>\<open>load_avg\<close> is \<^verbatim>\<open>None\<close> when the platform has no \<^verbatim>\<open>getloadavg\<close> or the call
  raises, and the three averages otherwise; the value of \<^verbatim>\<open>uptime_seconds\<close> is \<^verbatim>\<open>None\<close> when
  \<^verbatim>\<open>/proc/uptime\<close> cannot be read and parsed, and the uptime otherwise.
\<close>

theorem system_info_unsupported_is_None:
  "(\<exists>kvs. system_info h = JObj kvs \<and>
      map fst kvs = [''platform'', ''system'', ''release'', ''python'', ''architecture'',
                     ''cpu_count'', ''load_avg'', ''uptime_seconds''])
   \<and> (\<not> os_has_getloadavg h \<or> os_getloadavg h = None \<longrightarrow>
        obj_get (system_info h) ''load_avg'' = Some JNull)
   \<and> (proc_uptime h = None \<longrightarrow> obj_get (system_info h) ''uptime_seconds'' = Some JNull)
   \<and> (os_has_getloadavg h \<and> os_getloadavg h = Some (a, b, c) \<longrightarrow>
        obj_get (system_info h) ''load_avg'' = Some (JArr [JFloat a, JFloat b, JFloat c]))
   \<and> (proc_uptime h = Some u \<longrightarrow> obj_get (system_info h) ''uptime_seconds'' = Some (JFloat u))"
  by (auto simp: system_info_def obj_get_def Let_def)

theorem system_info_unsupported_is_None_witness:
  "obj_get (system_info windows_host) ''load_avg'' = Some JNull
   \<and> obj_get (system_info windows_host) ''uptime_seconds'' = Some JNull
   \<and> obj_get (system_info linux_host) ''load_avg''
       = Some (JArr [JFloat (1 / 2), JFloat (1 / 4), JFloat (1 / 8)])
   \<and> obj_get (system_info linux_host) ''uptime_seconds'' = Some (JFloat (12345 / 100))"
  using system_info_unsupported_is_None [of windows_host]
        system_info_unsupported_is_None [of linux_host "1 / 2" "1 / 4" "1 / 8" "12345 / 100"]
  by (simp add: windows_host_def linux_host_def)

section \<open>scan\_port on a timeout or a refusal\<close>

text \<open>
  C10. When \<^verbatim>\<open>scan_port\<close> is called with a host that is not empty and a port in
  1..65535, and its connection attempt ends in a timeout or a refusal, the result is
  \<^verbatim>\<open>{"status": "ok", "host": host, "port": port, "open": False}\<close>, with no \<^verbatim>\<open>latency\<close>; and a
  result of \<^verbatim>\<open>scan_port\<close> carries a \<^verbatim>\<open>latency\<close> only when its \<^verbatim>\<open>open\<close> is \<^verbatim>\<open>True\<close>.
\<close>

theorem scan_port_timeout_is_closed:
  "(host \<noteq> [] \<and> 0 < port \<and> port < 65536
     \<and> (host, port) \<in> set (snd (scan_port connect host port timeout))
     \<and> connect host port (max (1 / 10) timeout) = Inl e
     \<and> (exn_class e = ''socket.timeout'' \<or> exn_class e = ''ConnectionRefusedError'')
    \<longrightarrow> fst (scan_port connect host port timeout) =
          JObj [(''status'', JStr ''ok''), (''host'', JStr host), (''port'', JInt port),
                (''open'', JBool False)]
        \<and> obj_get (fst (scan_port connect host port timeout)) ''latency'' = None)
   \<and> (obj_get (fst (scan_port connect host port timeout)) ''latency'' \<noteq> None
        \<longrightarrow> obj_get (fst (scan_port connect host port timeout)) ''open'' = Some (JBool True))"
  by (auto simp: scan_port_def obj_get_def split: sum.splits if_splits)

theorem scan_port_timeout_is_closed_witness:
  "fst (scan_port (\<lambda>h p t. Inl (Exn ''socket.timeout'' ''timed out'')) ''example.com'' 81 2) =
     JObj [(''status'', JStr ''ok''), (''host'', JStr ''example.com''), (''port'', JInt 81),
           (''open'', JBool False)]
   \<and> obj_get (fst (scan_port (\<lambda>h p t. Inr (1234 / 10000)) ''example.com'' 80 2)) ''open''
       = Some (JBool True)"
proof -
  have made: "(''example.com'', 81)
     \<in> set (snd (scan_port (\<lambda>h p t. Inl (Exn ''socket.timeout'' ''timed out'')) ''example.com'' 81 2))"
    by (simp add: scan_port_def strip_def isspace_def)
  have latency: "obj_get (fst (scan_port (\<lambda>h p t. Inr (1234 / 10000)) ''example.com'' 80 2))
                   ''latency'' \<noteq> None"
    by (simp add: scan_port_def strip_def isspace_def obj_get_def)
  show ?thesis
    using scan_port_timeout_is_closed
            [of "''example.com''" 81 "\<lambda>h p t. Inl (Exn ''socket.timeout'' ''timed out'')" 2
                "Exn ''socket.timeout'' ''timed out''"]
          scan_port_timeout_is_closed [of "''example.com''" 80 "\<lambda>h p t. Inr (1234 / 10000)" 2]
          made latency
    by simp
qed

section \<open>Lemmas on the confirmation\<close>

lemma requests_append: "requests (xs @ ys) = requests xs @ requests ys"
  by (induction xs rule: requests.induct) simp_all

lemma invocations_append: "invocations (xs @ ys) = invocations xs @ invocations ys"
  by (induction xs rule: invocations.induct) simp_all

lemma prompts_append: "prompts (xs @ ys) = prompts xs @ prompts ys"
  by (induction xs rule: prompts.induct) simp_all

lemma read_choice_quiet:
  "read_choice prompt ls = (r, rest, evs) \<Longrightarrow> requests evs = [] \<and> invocations evs = []"
proof (induction ls arbitrary: r rest evs)
  case Nil
  then show ?case by auto
next
  case (Cons l ls)
  obtain r' rest' evs' where rc: "read_choice prompt ls = (r', rest', evs')"
    by (cases "read_choice prompt ls") auto
  from Cons.IH [OF rc] have "requests evs' = []" "invocations evs' = []" by auto
  with Cons.prems rc show ?case
    by (auto simp: Let_def split: if_splits)
qed

lemma confirm_tool_quiet:
  assumes "confirm_tool env name args s = (r, s')"
  shows "messages s' = messages s \<and> requests (trace s') = requests (trace s)
         \<and> invocations (trace s') = invocations (trace s)"
proof (cases "confirm_prompt env name args")
  case (Inl e)
  with assms show ?thesis by (simp add: confirm_tool_def)
next
  case (Inr prompt)
  obtain r' rest evs where rc: "read_choice prompt (stdin s) = (r', rest, evs)"
    by (cases "read_choice prompt (stdin s)") auto
  from read_choice_quiet [OF rc] Inr rc assms show ?thesis
    by (auto simp: confirm_tool_def requests_append invocations_append)
qed

lemma confirm_tool_decided:
  "confirm_prompt env name args = Inr prompt \<Longrightarrow> read_choice prompt (stdin s) = (r, rest, evs)
   \<Longrightarrow> confirm_tool env name args s = (r, s\<lparr>stdin := rest, trace := trace s @ evs\<rparr>)"
  by (simp add: confirm_tool_def)

section \<open>Lemmas on dispatch\<close>

lemma tool_map_get_known: "name \<in> set TOOL_MAP \<Longrightarrow> tool_map_get (JStr name) = Inr (Some name)"
  by (simp add: tool_map_get_def)

lemma tool_map_get_unknown: "name \<notin> set TOOL_MAP \<Longrightarrow> tool_map_get (JStr name) = Inr None"
  by (simp add: tool_map_get_def)

lemma dispatch_declined:
  assumes "name \<in> set TOOL_MAP"
    and "confirm_prompt env name (tool_args data) = Inr prompt"
    and "read_choice prompt (stdin s) = (Inr False, rest, evs)"
  shows "dispatch env reply data (JStr name) logged s =
           Break
             \<lparr>messages =
                (if logged then messages s
                 else messages s @ [\<lparr>role = ''assistant'', content = JStr reply\<rparr>])
                @ [\<lparr>role = ''user'',
                    content = JStr (''User declined to run tool '' @ name @ ''.'')\<rparr>],
              stdin = rest,
              trace = trace s @ evs
                @ [Printed (''assistant> User declined to run tool '' @ name @ ''.'')]\<rparr>"
  using assms
  by (simp add: dispatch_def tool_map_get_known confirm_tool_def append_message_def print_def
        Let_def)

lemma dispatch_unknown:
  assumes "name \<notin> set TOOL_MAP"
  shows "dispatch env reply data (JStr name) logged s =
           Break
             \<lparr>messages =
                (if logged then messages s
                 else messages s @ [\<lparr>role = ''assistant'', content = JStr reply\<rparr>])
                @ [\<lparr>role = ''user'',
                    content = JStr (''Unknown tool '' @ [CHR 0x27] @ name @ [CHR 0x27] @ ''.'')\<rparr>],
              stdin = stdin s,
              trace = trace s
                @ [Printed (''assistant> Unknown tool '' @ [CHR 0x27] @ name @ [CHR 0x27]
                            @ ''.'')]\<rparr>"
  using assms
  by (simp add: dispatch_def tool_map_get_unknown append_message_def print_def Let_def
        str_of_def)

lemma loop_body_tool:
  assumes "ask_ollama env (messages s) = Inr reply" and "interpreted env reply data"
    and "obj_get data ''tool'' = Some tool_name"
  shows "loop_body env s =
           dispatch env reply data tool_name (json_loads env reply = None)
             (if json_loads env reply = None
              then append_message ''assistant'' (JStr reply)
                     (print (''assistant> '' @ reply) (s\<lparr>trace := trace s @ [Asked (messages s)]\<rparr>))
              else s\<lparr>trace := trace s @ [Asked (messages s)]\<rparr>)"
  using assms
  by (auto simp: loop_body_def interpreted_def route_def Let_def)

lemma call_func_quiet: "requests (snd (call_func env name args)) = []"
  by (simp add: call_func_def split: json.splits)

lemma tool_map_get_Some:
  "tool_map_get tool_name = Inr (Some name) \<Longrightarrow> tool_name = JStr name \<and> name \<in> set TOOL_MAP"
  by (auto simp: tool_map_get_def split: json.splits if_splits)

lemma dispatch_Continue:
  assumes "dispatch env reply data tool_name logged s = Continue s'"
  shows "\<exists>name dumped. tool_name = JStr name \<and> name \<in> set TOOL_MAP
           \<and> json_dumps env (result_of env name (tool_args data)) = Inr dumped
           \<and> messages s' =
               (if logged then messages s
                else messages s @ [\<lparr>role = ''assistant'', content = JStr reply\<rparr>])
               @ [\<lparr>role = ''user'',
                   content = JStr (''Tool '' @ name @ '' result: '' @ dumped)\<rparr>]
           \<and> requests (trace s') = requests (trace s)"
proof -
  let ?s1 = "if \<not> logged then append_message ''assistant'' (JStr reply) s else s"
  from assms obtain name where tm: "tool_map_get tool_name = Inr (Some name)"
    by (auto simp: dispatch_def Let_def split: sum.splits option.splits)
  note known = tool_map_get_Some [OF tm]
  obtain r s2 where ct: "confirm_tool env name (tool_args data) ?s1 = (r, s2)"
    by (cases "confirm_tool env name (tool_args data) ?s1") auto
  from assms tm ct have r: "r = Inr True"
    by (auto simp: dispatch_def Let_def split: sum.splits bool.splits)
  from confirm_tool_quiet [OF ct] have q: "messages s2 = messages ?s1"
    "requests (trace s2) = requests (trace ?s1)" by auto
  let ?result = "result_of env name (tool_args data)"
  let ?s3 = "s2\<lparr>trace := trace s2 @ snd (call_func env name (tool_args data))\<rparr>"
  from assms tm ct r obtain display where d: "display_of env ?result = Inr display"
    by (auto simp: dispatch_def Let_def split: sum.splits)
  from assms tm ct r d obtain dumped where j: "json_dumps env ?result = Inr dumped"
    by (auto simp: dispatch_def Let_def split: sum.splits)
  from assms tm ct r d j have "s' =
      append_message ''user'' (JStr (''Tool '' @ name @ '' result: '' @ dumped))
        (print (''[tool:'' @ name @ ''] '' @ display) ?s3)"
    by (simp add: dispatch_def Let_def)
  then have "messages s' = messages s2
       @ [\<lparr>role = ''user'', content = JStr (''Tool '' @ name @ '' result: '' @ dumped)\<rparr>]"
    and "requests (trace s') = requests (trace s2)"
    by (simp_all add: append_message_def print_def requests_append call_func_quiet)
  with q known j show ?thesis
    by (intro exI [of _ name] exI [of _ dumped]) (auto simp: append_message_def)
qed

lemma dispatch_ends:
  assumes "dispatch env reply data tool_name logged s = f" and "f = Break s' \<or> f = Raise e s'"
  shows "(\<exists>tail. messages s' = messages s @ tail) \<and> requests (trace s') = requests (trace s)"
proof -
  let ?s1 = "if \<not> logged then append_message ''assistant'' (JStr reply) s else s"
  show ?thesis
  proof (cases "tool_map_get tool_name")
    case (Inl x)
    with assms show ?thesis by (auto simp: dispatch_def Let_def)
  next
    case (Inr func)
    show ?thesis
    proof (cases func)
      case None
      with Inr assms show ?thesis
        by (auto simp: dispatch_def Let_def append_message_def print_def requests_append)
    next
      case (Some name)
      obtain r s2 where ct: "confirm_tool env name (tool_args data) ?s1 = (r, s2)"
        by (cases "confirm_tool env name (tool_args data) ?s1") auto
      from confirm_tool_quiet [OF ct] have q: "messages s2 = messages ?s1"
        "requests (trace s2) = requests (trace ?s1)" by auto
      let ?s3 = "s2\<lparr>trace := trace s2 @ snd (call_func env name (tool_args data))\<rparr>"
      from assms Inr Some ct have "(s' = s2) \<or>
          (s' = append_message ''user'' (JStr (''User declined to run tool '' @ name @ ''.''))
                  (print (''assistant> '' @ ''User declined to run tool '' @ name @ ''.'') s2))
          \<or> (s' = ?s3) \<or> (\<exists>line. s' = print line ?s3)"
        by (auto simp: dispatch_def Let_def split: sum.splits bool.splits)
      with q show ?thesis
        by (auto simp: append_message_def print_def requests_append call_func_quiet)
    qed
  qed
qed

section \<open>Lemmas on the loop\<close>

lemma route_Continue:
  "route env reply data logged s = Continue s' \<Longrightarrow>
   \<exists>tool_name. obj_get data ''tool'' = Some tool_name
      \<and> dispatch env reply data tool_name logged s = Continue s'"
  by (auto simp: route_def split: option.splits)

lemma route_ends:
  assumes "route env reply data logged s = f" and "f = Break s' \<or> f = Raise e s'"
  shows "(\<exists>tail. messages s' = messages s @ tail) \<and> requests (trace s') = requests (trace s)"
proof (cases "obj_get data ''tool''")
  case (Some tool_name)
  with assms have "dispatch env reply data tool_name logged s = f" by (simp add: route_def)
  from dispatch_ends [OF this assms(2)] show ?thesis .
next
  case None
  with assms show ?thesis
    by (auto simp: route_def append_message_def print_def requests_append split: option.splits)
qed

lemma loop_body_Continue:
  assumes "loop_body env s = Continue s'"
  shows "tool_round env (messages s) (messages s')
         \<and> requests (trace s') = requests (trace s) @ [messages s]"
proof -
  let ?s0 = "s\<lparr>trace := trace s @ [Asked (messages s)]\<rparr>"
  from assms obtain reply where ask: "ask_ollama env (messages s) = Inr reply"
    by (auto simp: loop_body_def Let_def split: sum.splits)
  show ?thesis
  proof (cases "json_loads env reply")
    case (Some data)
    then have int: "interpreted env reply data" by (simp add: interpreted_def)
    from Some assms ask have "route env reply data False ?s0 = Continue s'"
      by (simp add: loop_body_def Let_def)
    then obtain tool_name where tool: "obj_get data ''tool'' = Some tool_name"
      and "dispatch env reply data tool_name False ?s0 = Continue s'"
      using route_Continue by blast
    from dispatch_Continue [OF this(2)] obtain name dumped where
      "tool_name = JStr name" "name \<in> set TOOL_MAP"
      "json_dumps env (result_of env name (tool_args data)) = Inr dumped"
      "messages s' = messages ?s0
         @ [\<lparr>role = ''assistant'', content = JStr reply\<rparr>]
         @ [\<lparr>role = ''user'', content = JStr (''Tool '' @ name @ '' result: '' @ dumped)\<rparr>]"
      "requests (trace s') = requests (trace ?s0)"
      by auto
    with ask int tool show ?thesis
      unfolding tool_round_def
      by (intro conjI exI [of _ reply] exI [of _ data] exI [of _ name] exI [of _ dumped])
         (simp_all add: requests_append)
  next
    case None
    let ?s1 = "append_message ''assistant'' (JStr reply) (print (''assistant> '' @ reply) ?s0)"
    from assms ask None obtain data where
      ex: "extract_json_object (json_loads env) reply = Some data"
      and "route env reply data True ?s1 = Continue s'"
      by (auto simp: loop_body_def Let_def split: option.splits)
    from None ex have int: "interpreted env reply data" by (simp add: interpreted_def)
    from \<open>route env reply data True ?s1 = Continue s'\<close>
    obtain tool_name where tool: "obj_get data ''tool'' = Some tool_name"
      and "dispatch env reply data tool_name True ?s1 = Continue s'"
      using route_Continue by blast
    from dispatch_Continue [OF this(2)] obtain name dumped where
      "tool_name = JStr name" "name \<in> set TOOL_MAP"
      "json_dumps env (result_of env name (tool_args data)) = Inr dumped"
      "messages s' = messages ?s1
         @ [\<lparr>role = ''user'', content = JStr (''Tool '' @ name @ '' result: '' @ dumped)\<rparr>]"
      "requests (trace s') = requests (trace ?s1)"
      by auto
    with ask int tool show ?thesis
      unfolding tool_round_def
      by (intro conjI exI [of _ reply] exI [of _ data] exI [of _ name] exI [of _ dumped])
         (simp_all add: requests_append append_message_def print_def)
  qed
qed

lemma loop_body_ends:
  assumes "loop_body env s = f" and "f = Break s' \<or> f = Raise e s'"
  shows "(\<exists>tail. messages s' = messages s @ tail)
         \<and> requests (trace s') = requests (trace s) @ [messages s]"
proof -
  let ?s0 = "s\<lparr>trace := trace s @ [Asked (messages s)]\<rparr>"
  show ?thesis
  proof (cases "ask_ollama env (messages s)")
    case (Inl x)
    with assms show ?thesis by (auto simp: loop_body_def Let_def requests_append)
  next
    case (Inr reply)
    show ?thesis
    proof (cases "json_loads env reply")
      case (Some data)
      with assms Inr have "route env reply data False ?s0 = f"
        by (simp add: loop_body_def Let_def)
      from route_ends [OF this assms(2)] show ?thesis by (auto simp: requests_append)
    next
      case None
      let ?s1 = "append_message ''assistant'' (JStr reply) (print (''assistant> '' @ reply) ?s0)"
      show ?thesis
      proof (cases "extract_json_object (json_loads env) reply")
        case None
        with assms Inr \<open>json_loads env reply = None\<close> show ?thesis
          by (auto simp: loop_body_def Let_def append_message_def print_def requests_append)
      next
        case (Some data)
        with assms Inr \<open>json_loads env reply = None\<close>
        have "route env reply data True ?s1 = f" by (simp add: loop_body_def Let_def)
        from route_ends [OF this assms(2)] show ?thesis
          by (auto simp: requests_append append_message_def print_def)
      qed
    qed
  qed
qed

lemma process_assistant_causal:
  "process_assistant n env s = Some (r, s'') \<Longrightarrow>
   \<exists>reqs. requests (trace s'') = requests (trace s) @ reqs \<and> reqs \<noteq> []
      \<and> hd reqs = messages s \<and> causal env reqs \<and> (\<exists>tail. messages s'' = last reqs @ tail)"
proof (induction n arbitrary: s)
  case 0
  then show ?case by simp
next
  case (Suc n)
  show ?case
  proof (cases "loop_body env s")
    case (Continue s1)
    with Suc.prems have "process_assistant n env s1 = Some (r, s'')" by simp
    from Suc.IH [OF this] obtain reqs where reqs:
      "requests (trace s'') = requests (trace s1) @ reqs" "reqs \<noteq> []"
      "hd reqs = messages s1" "causal env reqs" "\<exists>tail. messages s'' = last reqs @ tail"
      by blast
    from loop_body_Continue [OF Continue] have lb: "tool_round env (messages s) (messages s1)"
      "requests (trace s1) = requests (trace s) @ [messages s]" by auto
    from reqs(2,3) obtain rest where rq: "reqs = messages s1 # rest" by (cases reqs) auto
    have "causal env (messages s # reqs)" using lb(1) reqs(4) rq by simp
    moreover have "last (messages s # reqs) = last reqs" using reqs(2) by simp
    ultimately show ?thesis
      using reqs lb by (intro exI [of _ "messages s # reqs"]) auto
  next
    case (Break s1)
    with Suc.prems have eq: "s'' = s1" by simp
    from loop_body_ends [OF Break, of s1] have
      "(\<exists>tail. messages s1 = messages s @ tail)
       \<and> requests (trace s1) = requests (trace s) @ [messages s]" by simp
    with eq show ?thesis by (intro exI [of _ "[messages s]"]) auto
  next
    case (Raise e s1)
    with Suc.prems have eq: "s'' = s1" by simp
    from loop_body_ends [OF Raise, of s1 e] have
      "(\<exists>tail. messages s1 = messages s @ tail)
       \<and> requests (trace s1) = requests (trace s) @ [messages s]" by simp
    with eq show ?thesis by (intro exI [of _ "[messages s]"]) auto
  qed
qed

lemma loop_body_declined:
  assumes ask: "ask_ollama env (messages s) = Inr reply" and int: "interpreted env reply data"
    and tool: "obj_get data ''tool'' = Some (JStr name)" and known: "name \<in> set TOOL_MAP"
    and prompt: "confirm_prompt env name (tool_args data) = Inr prompt"
    and no: "read_choice prompt (stdin s) = (Inr False, rest, evs)"
  shows "\<exists>s'. loop_body env s = Break s'
           \<and> messages s' = messages s
               @ [\<lparr>role = ''assistant'', content = JStr reply\<rparr>,
                  \<lparr>role = ''user'',
                   content = JStr (''User declined to run tool '' @ name @ ''.'')\<rparr>]
           \<and> Printed (''assistant> User declined to run tool '' @ name @ ''.'') \<in> set (trace s')
           \<and> invocations (trace s') = invocations (trace s)"
proof -
  have quiet: "invocations evs = []" using no read_choice_quiet by blast
  note lb = loop_body_tool [OF ask int tool]
  show ?thesis
  proof (cases "json_loads env reply = None")
    case True
    have "read_choice prompt (stdin (append_message ''assistant'' (JStr reply)
            (print (''assistant> '' @ reply) (s\<lparr>trace := trace s @ [Asked (messages s)]\<rparr>))))
          = (Inr False, rest, evs)"
      using no by (simp add: append_message_def print_def)
    from dispatch_declined [OF known prompt this, of reply True] lb True quiet
    show ?thesis
      by (simp add: append_message_def print_def invocations_append)
  next
    case False
    have "read_choice prompt (stdin (s\<lparr>trace := trace s @ [Asked (messages s)]\<rparr>))
          = (Inr False, rest, evs)"
      using no by simp
    from dispatch_declined [OF known prompt this, of reply False] lb False quiet
    show ?thesis
      by (simp add: append_message_def print_def invocations_append)
  qed
qed

lemma loop_body_unknown:
  assumes ask: "ask_ollama env (messages s) = Inr reply" and int: "interpreted env reply data"
    and tool: "obj_get data ''tool'' = Some (JStr name)" and unknown: "name \<notin> set TOOL_MAP"
  shows "\<exists>s'. loop_body env s = Break s'
           \<and> messages s' = messages s
               @ [\<lparr>role = ''assistant'', content = JStr reply\<rparr>,
                  \<lparr>role = ''user'',
                   content = JStr (''Unknown tool '' @ [CHR 0x27] @ name @ [CHR 0x27] @ ''.'')\<rparr>]
           \<and> Printed (''assistant> Unknown tool '' @ [CHR 0x27] @ name @ [CHR 0x27] @ ''.'')
               \<in> set (trace s')
           \<and> invocations (trace s') = invocations (trace s)
           \<and> prompts (trace s') = prompts (trace s)
           \<and> stdin s' = stdin s"
proof -
  note lb = loop_body_tool [OF ask int tool]
  show ?thesis
  proof (cases "json_loads env reply = None")
    case True
    from dispatch_unknown [OF unknown, of env reply data True] lb True
    show ?thesis
      by (simp add: append_message_def print_def invocations_append prompts_append)
  next
    case False
    from dispatch_unknown [OF unknown, of env reply data False] lb False
    show ?thesis
      by (simp add: append_message_def print_def invocations_append prompts_append)
  qed
qed

lemma read_choice_no:
  "lower (strip answer) \<in> {''n'', ''no'', []} \<Longrightarrow>
   read_choice prompt (answer # rest) = (Inr False, rest, [Prompted prompt])"
  by auto

lemma sample_ask:
  "ask_ollama (sample_env call tools) (messages (sample_state lines)) = Inr (sample_dumps call)"
  by (simp add: sample_env_def sample_state_def)

lemma sample_interpreted:
  "call \<in> {read_call, list_call, command_list_call, unknown_call}
   \<Longrightarrow> interpreted (sample_env c tools) (sample_dumps call) call"
  by (auto simp: interpreted_def sample_env_def table_loads_def read_call_def list_call_def
        command_list_call_def unknown_call_def)

lemma sample_prompt_read:
  "confirm_prompt (sample_env call tools) ''read_file'' (tool_args read_call) = Inr sample_prompt"
  by (simp add: confirm_prompt_def confirm_preview_def tool_args_def read_call_def obj_get_def
        or_else_def pretty_def sample_env_def sample_prompt_def sample_json_dumps_def)

lemma sample_tool: "obj_get read_call ''tool'' = Some (JStr ''read_file'')"
  by (simp add: read_call_def obj_get_def)

lemma sample_known: "''read_file'' \<in> set TOOL_MAP"
  by (simp add: TOOL_MAP_def)

section \<open>A known tool, not declined, that ends the turn\<close>



section \<open>An unknown tool and a declined confirmation\<close>

text \<open>
  C4. When the model's reply calls a tool whose name is not in the table, the round
  breaks out of the loop: the notice \<^verbatim>\<open>Unknown tool 'name'.\<close> is printed and recorded after
  the assistant's call, no tool is invoked, no confirmation is asked, no input is read
  and no tool result is recorded. When the tool is in the table and the confirmation
  ends on a negative decision, the round breaks out too: the notice
  \<^verbatim>\<open>User declined to run tool name.\<close> is printed and recorded, and no tool is invoked. An
  answer that is \<^verbatim>\<open>n\<close>, \<^verbatim>\<open>no\<close> or empty, once stripped and put in lower case, is a
  negative decision. The two notices are never the same text.
\<close>

theorem unknown_or_declined_ends_the_turn:
  "(ask_ollama env (messages s) = Inr reply \<and> interpreted env reply data
      \<and> obj_get data ''tool'' = Some (JStr name) \<and> name \<notin> set TOOL_MAP
     \<longrightarrow> (\<exists>s'. loop_body env s = Break s'
           \<and> messages s' = messages s
               @ [\<lparr>role = ''assistant'', content = JStr reply\<rparr>,
                  \<lparr>role = ''user'',
                   content = JStr (''Unknown tool '' @ [CHR 0x27] @ name @ [CHR 0x27] @ ''.'')\<rparr>]
           \<and> Printed (''assistant> Unknown tool '' @ [CHR 0x27] @ name @ [CHR 0x27] @ ''.'')
               \<in> set (trace s')
           \<and> invocations (trace s') = invocations (trace s)
           \<and> prompts (trace s') = prompts (trace s)
           \<and> stdin s' = stdin s
           \<and> process_assistant (Suc n) env s = Some (None, s')))
   \<and> (ask_ollama env (messages s) = Inr reply \<and> interpreted env reply data
      \<and> obj_get data ''tool'' = Some (JStr name) \<and> name \<in> set TOOL_MAP
      \<and> confirm_prompt env name (tool_args data) = Inr prompt
      \<and> read_choice prompt (stdin s) = (Inr False, rest, evs)
     \<longrightarrow> (\<exists>s'. loop_body env s = Break s'
           \<and> messages s' = messages s
               @ [\<lparr>role = ''assistant'', content = JStr reply\<rparr>,
                  \<lparr>role = ''user'',
                   content = JStr (''User declined to run tool '' @ name @ ''.'')\<rparr>]
           \<and> Printed (''assistant> User declined to run tool '' @ name @ ''.'') \<in> set (trace s')
           \<and> invocations (trace s') = invocations (trace s)
           \<and> process_assistant (Suc n) env s = Some (None, s')))
   \<and> (lower (strip answer) \<in> {''n'', ''no'', []}
     \<longrightarrow> read_choice prompt (answer # rest) = (Inr False, rest, [Prompted prompt]))
   \<and> ''Unknown tool '' @ [CHR 0x27] @ name @ [CHR 0x27] @ ''.''
       \<noteq> ''User declined to run tool '' @ other @ ''.''"
proof (intro conjI impI)
  assume "ask_ollama env (messages s) = Inr reply \<and> interpreted env reply data
      \<and> obj_get data ''tool'' = Some (JStr name) \<and> name \<notin> set TOOL_MAP"
  then have "\<exists>s'. loop_body env s = Break s'
           \<and> messages s' = messages s
               @ [\<lparr>role = ''assistant'', content = JStr reply\<rparr>,
                  \<lparr>role = ''user'',
                   content = JStr (''Unknown tool '' @ [CHR 0x27] @ name @ [CHR 0x27] @ ''.'')\<rparr>]
           \<and> Printed (''assistant> Unknown tool '' @ [CHR 0x27] @ name @ [CHR 0x27] @ ''.'')
               \<in> set (trace s')
           \<and> invocations (trace s') = invocations (trace s)
           \<and> prompts (trace s') = prompts (trace s)
           \<and> stdin s' = stdin s"
    using loop_body_unknown [of env s reply data name] by blast
  then show "\<exists>s'. loop_body env s = Break s'
           \<and> messages s' = messages s
               @ [\<lparr>role = ''assistant'', content = JStr reply\<rparr>,
                  \<lparr>role = ''user'',
                   content = JStr (''Unknown tool '' @ [CHR 0x27] @ name @ [CHR 0x27] @ ''.'')\<rparr>]
           \<and> Printed (''assistant> Unknown tool '' @ [CHR 0x27] @ name @ [CHR 0x27] @ ''.'')
               \<in> set (trace s')
           \<and> invocations (trace s') = invocations (trace s)
           \<and> prompts (trace s') = prompts (trace s)
           \<and> stdin s' = stdin s
           \<and> process_assistant (Suc n) env s = Some (None, s')"
    by auto
next
  assume "ask_ollama env (messages s) = Inr reply \<and> interpreted env reply data
      \<and> obj_get data ''tool'' = Some (JStr name) \<and> name \<in> set TOOL_MAP
      \<and> confirm_prompt env name (tool_args data) = Inr prompt
      \<and> read_choice prompt (stdin s) = (Inr False, rest, evs)"
  then have "\<exists>s'. loop_body env s = Break s'
           \<and> messages s' = messages s
               @ [\<lparr>role = ''assistant'', content = JStr reply\<rparr>,
                  \<lparr>role = ''user'',
                   content = JStr (''User declined to run tool '' @ name @ ''.'')\<rparr>]
           \<and> Printed (''assistant> User declined to run tool '' @ name @ ''.'') \<in> set (trace s')
           \<and> invocations (trace s') = invocations (trace s)"
    using loop_body_declined [of env s reply data name prompt rest evs] by blast
  then show "\<exists>s'. loop_body env s = Break s'
           \<and> messages s' = messages s
               @ [\<lparr>role = ''assistant'', content = JStr reply\<rparr>,
                  \<lparr>role = ''user'',
                   content = JStr (''User declined to run tool '' @ name @ ''.'')\<rparr>]
           \<and> Printed (''assistant> User declined to run tool '' @ name @ ''.'') \<in> set (trace s')
           \<and> invocations (trace s') = invocations (trace s)
           \<and> process_assistant (Suc n) env s = Some (None, s')"
    by auto
next
  assume "lower (strip answer) \<in> {''n'', ''no'', []}"
  then show "read_choice prompt (answer # rest) = (Inr False, rest, [Prompted prompt])"
    by (rule read_choice_no)
next
  show "''Unknown tool '' @ [CHR 0x27] @ name @ [CHR 0x27] @ ''.''
       \<noteq> ''User declined to run tool '' @ other @ ''.''"
    by simp
qed

theorem unknown_or_declined_ends_the_turn_witness:
  "messages (flow_state (loop_body (sample_env unknown_call notes_worker) (sample_state [''y''])))
     = messages (sample_state [''y''])
       @ [\<lparr>role = ''assistant'', content = JStr (sample_dumps unknown_call)\<rparr>,
          \<lparr>role = ''user'',
           content = JStr (''Unknown tool '' @ [CHR 0x27] @ ''format_disk'' @ [CHR 0x27] @ ''.'')\<rparr>]
   \<and> invocations (trace (flow_state
        (loop_body (sample_env unknown_call notes_worker) (sample_state [''y''])))) = []
   \<and> process_assistant (Suc 0) (sample_env unknown_call notes_worker) (sample_state [''y''])
     = Some (None, flow_state
         (loop_body (sample_env unknown_call notes_worker) (sample_state [''y''])))
   \<and> messages (flow_state (loop_body (sample_env read_call notes_worker) (sample_state ['' No ''])))
     = messages (sample_state ['' No ''])
       @ [\<lparr>role = ''assistant'', content = JStr (sample_dumps read_call)\<rparr>,
          \<lparr>role = ''user'', content = JStr ''User declined to run tool read_file.''\<rparr>]
   \<and> invocations (trace (flow_state
        (loop_body (sample_env read_call notes_worker) (sample_state ['' No ''])))) = []"
proof -
  have int_u: "interpreted (sample_env unknown_call notes_worker) (sample_dumps unknown_call)
                 unknown_call"
    by (rule sample_interpreted) simp
  have tool_u: "obj_get unknown_call ''tool'' = Some (JStr ''format_disk'')"
    by (simp add: unknown_call_def obj_get_def)
  have unknown: "''format_disk'' \<notin> set TOOL_MAP" by (simp add: TOOL_MAP_def)
  have int_r: "interpreted (sample_env read_call notes_worker) (sample_dumps read_call) read_call"
    by (rule sample_interpreted) simp
  have "lower (strip '' No '') = ''no''" by code_simp
  then have answer: "lower (strip '' No '') \<in> {''n'', ''no'', []}" by simp
  have "read_choice sample_prompt ['' No ''] = (Inr False, [], [Prompted sample_prompt])"
    by (rule unknown_or_declined_ends_the_turn
               [where answer = "'' No ''" and prompt = sample_prompt and rest = "[]",
                THEN conjunct2, THEN conjunct2, THEN conjunct1, THEN mp])
       (rule answer)
  then have no: "read_choice sample_prompt (stdin (sample_state ['' No '']))
              = (Inr False, [], [Prompted sample_prompt])"
    by (simp add: sample_state_def)
  have "\<exists>s'. loop_body (sample_env unknown_call notes_worker) (sample_state [''y'']) = Break s'
           \<and> messages s' = messages (sample_state [''y''])
               @ [\<lparr>role = ''assistant'', content = JStr (sample_dumps unknown_call)\<rparr>,
                  \<lparr>role = ''user'',
                   content = JStr (''Unknown tool '' @ [CHR 0x27] @ ''format_disk'' @ [CHR 0x27]
                                   @ ''.'')\<rparr>]
           \<and> invocations (trace s') = invocations (trace (sample_state [''y'']))
           \<and> process_assistant (Suc 0) (sample_env unknown_call notes_worker)
                 (sample_state [''y'']) = Some (None, s')"
    using unknown_or_declined_ends_the_turn
         [where env = "sample_env unknown_call notes_worker" and s = "sample_state [''y'']"
            and reply = "sample_dumps unknown_call" and data = unknown_call
            and name = "''format_disk''" and n = 0]
       sample_ask int_u tool_u unknown
    by blast
  then obtain s1 where s1:
    "loop_body (sample_env unknown_call notes_worker) (sample_state [''y'']) = Break s1"
    "messages s1 = messages (sample_state [''y''])
               @ [\<lparr>role = ''assistant'', content = JStr (sample_dumps unknown_call)\<rparr>,
                  \<lparr>role = ''user'',
                   content = JStr (''Unknown tool '' @ [CHR 0x27] @ ''format_disk'' @ [CHR 0x27]
                                   @ ''.'')\<rparr>]"
    "invocations (trace s1) = invocations (trace (sample_state [''y'']))"
    "process_assistant (Suc 0) (sample_env unknown_call notes_worker)
                 (sample_state [''y'']) = Some (None, s1)"
    by blast
  have "\<exists>s'. loop_body (sample_env read_call notes_worker) (sample_state ['' No '']) = Break s'
           \<and> messages s' = messages (sample_state ['' No ''])
               @ [\<lparr>role = ''assistant'', content = JStr (sample_dumps read_call)\<rparr>,
                  \<lparr>role = ''user'',
                   content = JStr (''User declined to run tool '' @ ''read_file'' @ ''.'')\<rparr>]
           \<and> invocations (trace s') = invocations (trace (sample_state ['' No '']))"
    using unknown_or_declined_ends_the_turn
         [where env = "sample_env read_call notes_worker" and s = "sample_state ['' No '']"
            and reply = "sample_dumps read_call" and data = read_call
            and name = "''read_file''" and n = 0 and prompt = sample_prompt and rest = "[]"
            and evs = "[Prompted sample_prompt]"]
       sample_ask int_r sample_tool sample_known sample_prompt_read no
    by blast
  then obtain s2 where s2:
    "loop_body (sample_env read_call notes_worker) (sample_state ['' No '']) = Break s2"
    "messages s2 = messages (sample_state ['' No ''])
               @ [\<lparr>role = ''assistant'', content = JStr (sample_dumps read_call)\<rparr>,
                  \<lparr>role = ''user'',
                   content = JStr (''User declined to run tool '' @ ''read_file'' @ ''.'')\<rparr>]"
    "invocations (trace s2) = invocations (trace (sample_state ['' No '']))"
    by blast
  from s1 s2 show ?thesis
    by (simp add: flow_state_def sample_state_def del: process_assistant.simps)
qed

section \<open>Arguments that are not a mapping\<close>

text \<open>
  C6. The arguments of a tool call are \<^verbatim>\<open>data.get("args", {}) or {}\<close>: an empty mapping
  stands in only for a value of \<^verbatim>\<open>args\<close> that is absent or falsy, such as an empty list.
  For the reply \<^verbatim>\<open>{"tool": "read_file", "args": ["notes.txt"]}\<close> the arguments stay the list,
  not an empty mapping: the prompt shows the list, and once the user confirms,
  \<^verbatim>\<open>func(**args)\<close> raises \<^verbatim>\<open>TypeError\<close> where it stands, no function is called, and the
  error is fed back as the result of the tool. With an empty mapping the function is
  called. For the reply \<^verbatim>\<open>{"tool": "run_command", "args": ["ls"]}\<close> the list reaches
  \<^verbatim>\<open>_confirm_tool\<close>, which reads a mapping and raises \<^verbatim>\<open>AttributeError\<close>.
\<close>

theorem non_mapping_args_are_kept:
  "obj_get list_call ''args'' = Some (JArr [JStr ''notes.txt''])
   \<and> tool_args list_call = JArr [JStr ''notes.txt'']
   \<and> tool_args (JObj [(''tool'', JStr ''read_file''), (''args'', JArr [])]) = JObj []
   \<and> tool_args (JObj [(''tool'', JStr ''read_file'')]) = JObj []
   \<and> confirm_prompt (sample_env list_call notes_worker) ''read_file'' (tool_args list_call)
       = Inr (''Execute tool '' @ [CHR 0x27] @ ''read_file'' @ [CHR 0x27] @ '' with args ''
              @ sample_dumps (JArr [JStr ''notes.txt'']) @ ''? [y/N]: '')
   \<and> call_func (sample_env list_call notes_worker) ''read_file'' (tool_args list_call)
       = (Inl (Exn ''TypeError''
                 ''mcp_client.read_file() argument after ** must be a mapping, not list''), [])
   \<and> call_func (sample_env list_call notes_worker) ''read_file'' (JObj [])
       = (Inr (JObj [(''content'', JStr ''hello'')]), [Invoked ''read_file'' (JObj [])])
   \<and> (\<exists>s'. loop_body (sample_env list_call notes_worker) (sample_state [''y'']) = Continue s'
      \<and> messages s' = messages (sample_state [''y''])
          @ [\<lparr>role = ''assistant'', content = JStr (sample_dumps list_call)\<rparr>,
             \<lparr>role = ''user'',
              content = JStr (''Tool read_file result: ''
                @ sample_dumps
                    (JObj [(''status'', JStr ''error''),
                           (''error'',
                            JStr (''mcp_client.read_file() argument after ** must be a ''
                                  @ ''mapping, not list''))]))\<rparr>]
      \<and> invocations (trace s') = [])
   \<and> tool_args command_list_call = JArr [JStr ''ls'']
   \<and> confirm_prompt (sample_env command_list_call notes_worker) ''run_command''
         (tool_args command_list_call)
       = Inl (Exn ''AttributeError''
                ([CHR 0x27] @ ''list'' @ [CHR 0x27] @ '' object has no attribute ''
                 @ [CHR 0x27] @ ''get'' @ [CHR 0x27]))"
proof (intro conjI)
  show "obj_get list_call ''args'' = Some (JArr [JStr ''notes.txt''])"
    by (simp add: list_call_def obj_get_def)
next
  show "tool_args list_call = JArr [JStr ''notes.txt'']"
    by (simp add: tool_args_def list_call_def obj_get_def or_else_def)
next
  show "tool_args (JObj [(''tool'', JStr ''read_file''), (''args'', JArr [])]) = JObj []"
    by (simp add: tool_args_def obj_get_def or_else_def)
next
  show "tool_args (JObj [(''tool'', JStr ''read_file'')]) = JObj []"
    by (simp add: tool_args_def obj_get_def or_else_def)
next
  show "confirm_prompt (sample_env list_call notes_worker) ''read_file'' (tool_args list_call)
       = Inr (''Execute tool '' @ [CHR 0x27] @ ''read_file'' @ [CHR 0x27] @ '' with args ''
              @ sample_dumps (JArr [JStr ''notes.txt'']) @ ''? [y/N]: '')"
    by code_simp
next
  show "call_func (sample_env list_call notes_worker) ''read_file'' (tool_args list_call)
       = (Inl (Exn ''TypeError''
                 ''mcp_client.read_file() argument after ** must be a mapping, not list''), [])"
    by code_simp
next
  show "call_func (sample_env list_call notes_worker) ''read_file'' (JObj [])
       = (Inr (JObj [(''content'', JStr ''hello'')]), [Invoked ''read_file'' (JObj [])])"
    by code_simp
next
  have "case loop_body (sample_env list_call notes_worker) (sample_state [''y'']) of
          Continue s' \<Rightarrow>
            messages s' = messages (sample_state [''y''])
              @ [\<lparr>role = ''assistant'', content = JStr (sample_dumps list_call)\<rparr>,
                 \<lparr>role = ''user'',
                  content = JStr (''Tool read_file result: ''
                    @ sample_dumps
                        (JObj [(''status'', JStr ''error''),
                               (''error'',
                                JStr (''mcp_client.read_file() argument after ** must be a ''
                                      @ ''mapping, not list''))]))\<rparr>]
            \<and> invocations (trace s') = []
        | _ \<Rightarrow> False"
    by code_simp
  then show "\<exists>s'. loop_body (sample_env list_call notes_worker) (sample_state [''y''])
                 = Continue s'
      \<and> messages s' = messages (sample_state [''y''])
          @ [\<lparr>role = ''assistant'', content = JStr (sample_dumps list_call)\<rparr>,
             \<lparr>role = ''user'',
              content = JStr (''Tool read_file result: ''
                @ sample_dumps
                    (JObj [(''status'', JStr ''error''),
                           (''error'',
                            JStr (''mcp_client.read_file() argument after ** must be a ''
                                  @ ''mapping, not list''))]))\<rparr>]
      \<and> invocations (trace s') = []"
    by (cases "loop_body (sample_env list_call notes_worker) (sample_state [''y''])") simp_all
next
  show "tool_args command_list_call = JArr [JStr ''ls'']"
    by (simp add: tool_args_def command_list_call_def obj_get_def or_else_def)
next
  show "confirm_prompt (sample_env command_list_call notes_worker) ''run_command''
         (tool_args command_list_call)
       = Inl (Exn ''AttributeError''
                ([CHR 0x27] @ ''list'' @ [CHR 0x27] @ '' object has no attribute ''
                 @ [CHR 0x27] @ ''get'' @ [CHR 0x27]))"
    by code_simp
qed

section \<open>The order of the transcript\<close>

text \<open>
  C7. A round that goes on to the next request has appended to the transcript the
  assistant message holding the model's tool call and, right after it, the user message
  serializing the whole result of that call, and nothing else; and its one request was
  sent before either. So in every run of the loop that ends, the transcripts sent to the
  chat service start with the transcript the loop was given, each later one is the one
  before it followed by one tool call and its result, and the transcript at the end
  extends the last one sent.
\<close>

theorem tool_result_follows_its_call:
  "(loop_body env s = Continue s'
     \<longrightarrow> tool_round env (messages s) (messages s')
         \<and> requests (trace s') = requests (trace s) @ [messages s])
   \<and> (process_assistant n env s = Some (r, s'')
     \<longrightarrow> (\<exists>reqs. requests (trace s'') = requests (trace s) @ reqs \<and> reqs \<noteq> []
            \<and> hd reqs = messages s \<and> causal env reqs
            \<and> (\<exists>tail. messages s'' = last reqs @ tail)))"
  using loop_body_Continue [of env s s'] process_assistant_causal [of n env s r s'']
  by blast

theorem tool_result_follows_its_call_witness:
  "tool_round (sample_env read_call notes_worker) (messages (sample_state [''y'']))
     (messages (flow_state (loop_body (sample_env read_call notes_worker) (sample_state [''y'']))))
   \<and> (\<exists>r s'' reqs.
        process_assistant 2 (sample_env read_call notes_worker) (sample_state [''y''])
          = Some (r, s'')
        \<and> requests (trace s'') = reqs \<and> map length reqs = [2, 4]
        \<and> hd reqs = messages (sample_state [''y''])
        \<and> causal (sample_env read_call notes_worker) reqs)"
proof -
  let ?env = "sample_env read_call notes_worker"
  let ?s = "sample_state [''y'']"
  have "case loop_body ?env ?s of Continue s1 \<Rightarrow> True | _ \<Rightarrow> False"
    by code_simp
  then obtain s1 where s1: "loop_body ?env ?s = Continue s1"
    by (cases "loop_body ?env ?s") simp_all
  have round: "tool_round ?env (messages ?s) (messages s1)"
    using tool_result_follows_its_call [where env = ?env and s = ?s and s' = s1] s1 by blast
  have lens: "map_option (\<lambda>(r, s). (r, map length (requests (trace s))))
                (process_assistant 2 ?env ?s) = Some (None, [2, 4])"
    by code_simp
  then obtain r s'' where run: "process_assistant 2 ?env ?s = Some (r, s'')"
    and len: "map length (requests (trace s'')) = [2, 4]"
    by (cases "process_assistant 2 ?env ?s") auto
  have "\<exists>reqs. requests (trace s'') = requests (trace ?s) @ reqs \<and> reqs \<noteq> []
            \<and> hd reqs = messages ?s \<and> causal ?env reqs
            \<and> (\<exists>tail. messages s'' = last reqs @ tail)"
    using tool_result_follows_its_call
            [where env = ?env and s = ?s and n = 2 and r = r and s'' = s''] run
    by blast
  then obtain reqs where "requests (trace s'') = reqs" "hd reqs = messages ?s" "causal ?env reqs"
    by (auto simp: sample_state_def)
  with run len round s1 show ?thesis
    by (auto simp: flow_state_def simp del: process_assistant.simps)
qed

end
